theory Spec2Isabelle
  imports Complex_Main "HOL-Library.Monad_Syntax" "HOL-Library.List_Lexorder"
    "HOL-Library.Log_Nat"
begin

section \<open>Python values\<close>

text \<open>
  A Python \<^verbatim>\<open>str\<close> is a sequence of Unicode code points: indexing, slicing and comparison
  work on code points, and the names the generator builds contain characters beyond ASCII.
  Strings are therefore lists of code points; \<open>py\<close> reads an ASCII literal. The order of
  lists is the lexicographic one, which is how Python compares strings.
\<close>

type_synonym pystr = "nat list"

definition py :: "string \<Rightarrow> pystr" where
  "py s = map of_char s"

datatype error = AssertionError | IndexError | KeyError | ValueError | ZeroDivisionError

section \<open>Concepts and the concept generator (ontolearn/concept_generator.py)\<close>

text \<open>
  The class \<^verbatim>\<open>Concept\<close> (module \<^verbatim>\<open>ontolearn.concept\<close>) is not among the sources.
  The generator reads from a concept its wrapped class (\<^verbatim>\<open>owl.name\<close>,
  \<^verbatim>\<open>owl.namespace.base_iri\<close>), its form tag, its canonical string \<^verbatim>\<open>str\<close>, its
  identifier \<^verbatim>\<open>full_iri\<close> and its extension \<^verbatim>\<open>instances\<close>; these are the fields of
  the record. Concepts are compared and hashed as Python objects, by identity: \<open>oid\<close> is
  that identity, so two objects built by two constructor calls differ even when every
  attribute agrees. What \<^verbatim>\<open>len(concept)\<close> returns is a parameter \<open>len_c\<close> of the
  operations that sort their operands.
\<close>

type_synonym individual = nat

record owl_class =
  name :: pystr
  base_iri :: pystr

datatype form = Class | ObjectIntersectionOf | ObjectUnionOf | ObjectComplementOf
  | ObjectSomeValuesFrom | ObjectAllValuesFrom

record concept =
  oid :: nat
  owl :: owl_class
  form :: form
  str :: pystr
  full_iri :: pystr
  instances :: "individual set"

text \<open>
  Modelled from the spec: the constructor of \<^verbatim>\<open>Concept\<close>, which is not among the
  sources. It wraps the class it is given with a form tag, takes the canonical string from
  the class name and the full identifier from namespace and name (what \<^verbatim>\<open>negation\<close>
  relies on when it looks up \<^verbatim>\<open>base_iri + name[1:]\<close> in the registry), and starts
  with an extension the generator overwrites at once. The operands passed in
  \<^verbatim>\<open>kwargs\<close> are not kept: no operation of the generator reads them back.
\<close>

definition Concept :: "nat \<Rightarrow> owl_class \<Rightarrow> form \<Rightarrow> concept" where
  "Concept new_oid c f =
     \<lparr>oid = new_oid, owl = c, form = f, str = name c, full_iri = base_iri c @ name c,
      instances = {}\<rparr>"

text \<open>
  A role is an object property with its name and the pairs \<^verbatim>\<open>get_relations()\<close> yields.
\<close>

record role =
  role_oid :: nat
  role_name :: pystr
  get_relations :: "(individual \<times> individual) list"

text \<open>
  The generator object. The five logs and the registry are Python dictionaries. The log of
  negations is written under two kinds of key: concept objects and IRI strings. \<open>next_oid\<close>
  is the identity the next constructed object receives. The ontology handle and the process
  pool are left out: the generator only writes to them.
\<close>

datatype negation_key = Concept_key concept | Iri_key pystr

record ConceptGenerator =
  min_size_of_concept :: int
  max_size_of_concept :: int
  namespace_base_iri :: pystr
  concepts :: "pystr \<rightharpoonup> concept"
  T :: concept
  Bottom :: concept
  log_of_intersections :: "concept \<times> concept \<rightharpoonup> concept"
  log_of_unions :: "concept \<times> concept \<rightharpoonup> concept"
  log_of_negations :: "negation_key \<rightharpoonup> concept"
  log_of_universal_restriction :: "concept \<times> role \<rightharpoonup> concept"
  log_of_existential_restriction :: "concept \<times> role \<rightharpoonup> concept"
  next_oid :: nat

text \<open>
  \<^verbatim>\<open>__init__\<close>: both size bounds are asserted to be truthy, that is non-zero; the logs
  start empty. \<open>fresh\<close> is the first object identity not in use.
\<close>

definition ConceptGenerator_init ::
  "(pystr \<rightharpoonup> concept) \<Rightarrow> concept \<Rightarrow> concept \<Rightarrow> int \<Rightarrow> int \<Rightarrow> nat
   \<Rightarrow> error + ConceptGenerator" where
  "ConceptGenerator_init concepts0 T0 Bottom0 max_size min_size fresh =
     (if max_size = 0 then Inl AssertionError
      else if min_size = 0 then Inl AssertionError
      else Inr \<lparr>min_size_of_concept = min_size, max_size_of_concept = max_size,
                namespace_base_iri = py ''https://dice-research.org/'',
                concepts = concepts0, T = T0, Bottom = Bottom0,
                log_of_intersections = Map.empty, log_of_unions = Map.empty,
                log_of_negations = Map.empty,
                log_of_universal_restriction = Map.empty,
                log_of_existential_restriction = Map.empty,
                next_oid = fresh\<rparr>)"

text \<open>
  \<^verbatim>\<open>__concepts_sorter\<close>: the shorter operand first; on equal length the two are sorted by
  \<^verbatim>\<open>str\<close> with Python's stable sort, which swaps them only when the second key is
  strictly smaller.
\<close>

definition concepts_sorter ::
  "(concept \<Rightarrow> nat) \<Rightarrow> concept \<Rightarrow> concept \<Rightarrow> concept \<times> concept" where
  "concepts_sorter len_c A B =
     (if len_c A < len_c B then (A, B)
      else if len_c A > len_c B then (B, A)
      else if str B < str A then (B, A) else (A, B))"

text \<open>
  \<^verbatim>\<open>get_instances_for_restrictions\<close>: each branch fills \<^verbatim>\<open>temp\<close> in a loop over the
  role's pairs. The existential branch adds the subject \<^verbatim>\<open>x\<close> of a pair whose object is
  in the filler; the other branch adds the object \<^verbatim>\<open>o\<close> of a pair whose object is not in
  the filler, and returns the universe without \<^verbatim>\<open>temp\<close>.
\<close>

definition get_instances_for_restrictions ::
  "ConceptGenerator \<Rightarrow> bool \<Rightarrow> role \<Rightarrow> concept \<Rightarrow> individual set" where
  "get_instances_for_restrictions self exist r filler =
     (if exist then
        fold (\<lambda>(x, y) temp. if y \<in> instances filler then insert x temp else temp)
          (get_relations r) {}
      else
        instances (T self)
          - fold (\<lambda>(s, ob) temp. if \<not> (ob \<in> instances filler) then insert ob temp else temp)
              (get_relations r) {})"

text \<open>
  The test every derivation but negation makes on the extension it computed:
  \<^verbatim>\<open>self.max_size_of_concept >= len(possible_instances_) >= self.min_size_of_concept\<close>.
\<close>

definition within_size_bounds :: "ConceptGenerator \<Rightarrow> individual set \<Rightarrow> bool" where
  "within_size_bounds self possible_instances \<longleftrightarrow>
     max_size_of_concept self \<ge> int (card possible_instances)
     \<and> int (card possible_instances) \<ge> min_size_of_concept self"

text \<open>
  \<^verbatim>\<open>negation\<close>. The branches are in the source's order: the log lookup by concept object;
  then every concept whose class is not named \<^verbatim>\<open>Thing\<close> gets a new complement concept;
  only then the test for \<^verbatim>\<open>ObjectComplementOf\<close> (with its assertion on the first
  character, the slice and the registry lookup, each of which can raise); then the branch
  for \<^verbatim>\<open>Thing\<close>, which writes two entries under IRI strings and returns the first; the
  final \<^verbatim>\<open>raise ValueError\<close>. The calls into owlready2 that declare the new class
  disjoint from the old one change the ontology only.
\<close>

definition negation ::
  "ConceptGenerator \<Rightarrow> concept \<Rightarrow> (error + concept) \<times> ConceptGenerator" where
  "negation self c =
     (case log_of_negations self (Concept_key c) of
        Some r \<Rightarrow> (Inr r, self)
      | None \<Rightarrow>
          if \<not> (name (owl c) = py ''Thing'') then
            (let possible_instances = instances (T self) - instances c;
                 not_concept = \<lparr>name = [172] @ name (owl c),
                                base_iri = namespace_base_iri self\<rparr>;
                 n = (Concept (next_oid self) not_concept ObjectComplementOf)
                       \<lparr>instances := possible_instances\<rparr>
             in (Inr n,
                 self\<lparr>next_oid := next_oid self + 1,
                      log_of_negations := (log_of_negations self)(Concept_key c \<mapsto> n),
                      concepts := (concepts self)(full_iri n \<mapsto> n)\<rparr>))
          else if form c = ObjectComplementOf then
            (if str c = [] then (Inl IndexError, self)
             else if hd (str c) \<noteq> 172 then (Inl AssertionError, self)
             else (case concepts self (base_iri (owl c) @ tl (name (owl c))) of
                     None \<Rightarrow> (Inl KeyError, self)
                   | Some r \<Rightarrow> (Inr r, self)))
          else if name (owl c) = py ''Thing'' then
            (let log1 = (log_of_negations self)(Iri_key (full_iri c) \<mapsto> Bottom self);
                 log2 = log1(Iri_key (full_iri (Bottom self)) \<mapsto> c)
             in (case log2 (Iri_key (full_iri c)) of
                   None \<Rightarrow> (Inl KeyError, self\<lparr>log_of_negations := log2\<rparr>)
                 | Some r \<Rightarrow> (Inr r, self\<lparr>log_of_negations := log2\<rparr>)))
          else (Inl ValueError, self))"

text \<open>
  The two restrictions: log lookup under \<^verbatim>\<open>(concept, relation)\<close>, the extension, the
  size test with its early \<^verbatim>\<open>return self.Bottom\<close>, then the new concept, named
  \<^verbatim>\<open>(\<close>, the quantifier (code point 8707 or 8704), the role name, a dot, the filler's
  string, \<^verbatim>\<open>)\<close>. The parameter \<^verbatim>\<open>base\<close> of the four binary and quantified
  derivations only chooses the superclass of the new class and is left out. The assertion
  that no instance is a string holds by the type of individuals.
\<close>

definition existential_restriction ::
  "ConceptGenerator \<Rightarrow> concept \<Rightarrow> role \<Rightarrow> concept \<times> ConceptGenerator" where
  "existential_restriction self c relation =
     (case log_of_existential_restriction self (c, relation) of
        Some r \<Rightarrow> (r, self)
      | None \<Rightarrow>
          (let possible_instances = get_instances_for_restrictions self True relation c
           in if \<not> within_size_bounds self possible_instances then (Bottom self, self)
              else
                (let new_concept =
                       \<lparr>name = [40, 8707] @ role_name relation @ [46] @ str c @ [41],
                        base_iri = namespace_base_iri self\<rparr>;
                     n = (Concept (next_oid self) new_concept ObjectSomeValuesFrom)
                           \<lparr>instances := possible_instances\<rparr>
                 in (n,
                     self\<lparr>next_oid := next_oid self + 1,
                          log_of_existential_restriction :=
                            (log_of_existential_restriction self)((c, relation) \<mapsto> n),
                          concepts := (concepts self)(full_iri n \<mapsto> n)\<rparr>))))"

definition universal_restriction ::
  "ConceptGenerator \<Rightarrow> concept \<Rightarrow> role \<Rightarrow> concept \<times> ConceptGenerator" where
  "universal_restriction self c relation =
     (case log_of_universal_restriction self (c, relation) of
        Some r \<Rightarrow> (r, self)
      | None \<Rightarrow>
          (let possible_instances = get_instances_for_restrictions self False relation c
           in if \<not> within_size_bounds self possible_instances then (Bottom self, self)
              else
                (let new_concept =
                       \<lparr>name = [40, 8704] @ role_name relation @ [46] @ str c @ [41],
                        base_iri = namespace_base_iri self\<rparr>;
                     n = (Concept (next_oid self) new_concept ObjectAllValuesFrom)
                           \<lparr>instances := possible_instances\<rparr>
                 in (n,
                     self\<lparr>next_oid := next_oid self + 1,
                          log_of_universal_restriction :=
                            (log_of_universal_restriction self)((c, relation) \<mapsto> n),
                          concepts := (concepts self)(full_iri n \<mapsto> n)\<rparr>))))"

text \<open>
  \<^verbatim>\<open>union\<close> sorts its operands, returns the other operand when one is called
  \<^verbatim>\<open>Nothing\<close>, and only then consults its log. \<^verbatim>\<open>intersection\<close> consults its log
  first and records \<^verbatim>\<open>Bottom\<close> in it when an operand is called \<^verbatim>\<open>Nothing\<close>.
  Code points 8852 and 8851 are the two connectives.
\<close>

definition union_c ::
  "(concept \<Rightarrow> nat) \<Rightarrow> ConceptGenerator \<Rightarrow> concept \<Rightarrow> concept
   \<Rightarrow> concept \<times> ConceptGenerator" where
  "union_c len_c self A0 B0 =
     (let (A, B) = concepts_sorter len_c A0 B0
      in if str A = py ''Nothing'' then (B, self)
         else if str B = py ''Nothing'' then (A, self)
         else
           (case log_of_unions self (A, B) of
              Some r \<Rightarrow> (r, self)
            | None \<Rightarrow>
                (let possible_instances = instances A \<union> instances B
                 in if \<not> within_size_bounds self possible_instances then (Bottom self, self)
                    else
                      (let new_concept =
                             \<lparr>name = [40] @ str A @ [32, 8852, 32] @ str B @ [41],
                              base_iri = namespace_base_iri self\<rparr>;
                           n = (Concept (next_oid self) new_concept ObjectUnionOf)
                                 \<lparr>instances := possible_instances\<rparr>
                       in (n,
                           self\<lparr>next_oid := next_oid self + 1,
                                log_of_unions := (log_of_unions self)((A, B) \<mapsto> n),
                                concepts := (concepts self)(full_iri n \<mapsto> n)\<rparr>)))))"

definition intersection ::
  "(concept \<Rightarrow> nat) \<Rightarrow> ConceptGenerator \<Rightarrow> concept \<Rightarrow> concept
   \<Rightarrow> concept \<times> ConceptGenerator" where
  "intersection len_c self A0 B0 =
     (let (A, B) = concepts_sorter len_c A0 B0
      in case log_of_intersections self (A, B) of
           Some r \<Rightarrow> (r, self)
         | None \<Rightarrow>
             if str A = py ''Nothing'' \<or> str B = py ''Nothing'' then
               (Bottom self,
                self\<lparr>log_of_intersections :=
                       (log_of_intersections self)((A, B) \<mapsto> Bottom self)\<rparr>)
             else
               (let possible_instances = instances A \<inter> instances B
                in if \<not> within_size_bounds self possible_instances then (Bottom self, self)
                   else
                     (let new_concept =
                            \<lparr>name = [40] @ str A @ [32, 32, 8851, 32, 32] @ str B @ [41],
                             base_iri = namespace_base_iri self\<rparr>;
                          n = (Concept (next_oid self) new_concept ObjectIntersectionOf)
                                \<lparr>instances := possible_instances\<rparr>
                      in (n,
                          self\<lparr>next_oid := next_oid self + 1,
                               log_of_intersections :=
                                 (log_of_intersections self)((A, B) \<mapsto> n),
                               concepts := (concepts self)(full_iri n \<mapsto> n)\<rparr>))))"

text \<open>
  The states a generator can be in: the one left by its constructor, and every state one of
  the five operations leaves behind.
\<close>

inductive reachable :: "(concept \<Rightarrow> nat) \<Rightarrow> ConceptGenerator \<Rightarrow> bool" for len_c where
  constructed:
    "ConceptGenerator_init concepts0 T0 Bottom0 max_size min_size fresh = Inr self
     \<Longrightarrow> reachable len_c self"
| after_negation: "reachable len_c self \<Longrightarrow> reachable len_c (snd (negation self c))"
| after_existential:
    "reachable len_c self \<Longrightarrow> reachable len_c (snd (existential_restriction self c r))"
| after_universal:
    "reachable len_c self \<Longrightarrow> reachable len_c (snd (universal_restriction self c r))"
| after_union: "reachable len_c self \<Longrightarrow> reachable len_c (snd (union_c len_c self A B))"
| after_intersection:
    "reachable len_c self \<Longrightarrow> reachable len_c (snd (intersection len_c self A B))"

text \<open>
  What the logs hold in every such state: no concept named \<^verbatim>\<open>Thing\<close> is a concept key
  of the negation log; an intersection logged for an operand named \<^verbatim>\<open>Nothing\<close> is
  \<open>Bottom\<close>; every other logged derivation has an extension within the size bounds.
\<close>

definition cache_inv :: "ConceptGenerator \<Rightarrow> bool" where
  "cache_inv self \<longleftrightarrow>
     (\<forall>c r. log_of_negations self (Concept_key c) = Some r \<longrightarrow> name (owl c) \<noteq> py ''Thing'')
   \<and> (\<forall>A B r. log_of_intersections self (A, B) = Some r \<longrightarrow>
         (if str A = py ''Nothing'' \<or> str B = py ''Nothing'' then r = Bottom self
          else within_size_bounds self (instances A \<inter> instances B)))
   \<and> (\<forall>A B r. log_of_unions self (A, B) = Some r \<longrightarrow>
         within_size_bounds self (instances A \<union> instances B))
   \<and> (\<forall>c rl r. log_of_existential_restriction self (c, rl) = Some r \<longrightarrow>
         within_size_bounds self (get_instances_for_restrictions self True rl c))
   \<and> (\<forall>c rl r. log_of_universal_restriction self (c, rl) = Some r \<longrightarrow>
         within_size_bounds self (get_instances_for_restrictions self False rl c))"

definition same_config :: "ConceptGenerator \<Rightarrow> ConceptGenerator \<Rightarrow> bool" where
  "same_config s s' \<longleftrightarrow> T s' = T s \<and> Bottom s' = Bottom s
     \<and> min_size_of_concept s' = min_size_of_concept s
     \<and> max_size_of_concept s' = max_size_of_concept s
     \<and> namespace_base_iri s' = namespace_base_iri s"

text \<open>
  The universal restriction as the docstring of \<^verbatim>\<open>universal_restriction\<close> and the
  specification describe it: the individuals of the domain none of whose successors lies
  outside the filler's extension.
\<close>

definition no_successor_outside ::
  "individual set \<Rightarrow> (individual \<times> individual) list \<Rightarrow> individual set \<Rightarrow> individual set" where
  "no_successor_outside delta rel ext =
     {x \<in> delta. \<not> (\<exists>y. (x, y) \<in> set rel \<and> y \<notin> ext)}"

section \<open>Construction of a learner (ontolearn/base_concept_learner.py)\<close>

text \<open>
  \<^verbatim>\<open>BaseConceptLearner.__init__\<close>. An argument is \<open>None\<close> (Python's \<^verbatim>\<open>None\<close>, the
  default of every collaborator) or an object; \<^verbatim>\<open>assert x\<close> fails on \<^verbatim>\<open>None\<close> and on
  an object whose truth value is false, so an object carries its truth value. The knowledge
  base also carries \<^verbatim>\<open>thing\<close>. The classes the constructor instantiates for a missing
  collaborator (\<^verbatim>\<open>ModifiedCELOERefinement\<close>, \<^verbatim>\<open>CELOEHeuristic\<close>, \<^verbatim>\<open>F1\<close>,
  \<^verbatim>\<open>CELOESearchTree\<close>) are imported from modules that are not among the sources: what
  their constructors return is the parameter \<open>d\<close>. The setters called on the refinement
  operator and on a given search tree change those objects only.
\<close>

record collaborator =
  label :: string
  truthy :: bool

record knowledge_base = collaborator +
  thing :: "collaborator option"

record default_classes =
  ModifiedCELOERefinement :: "knowledge_base \<Rightarrow> int \<Rightarrow> collaborator"
  CELOEHeuristic :: collaborator
  F1 :: collaborator
  CELOESearchTree :: "collaborator \<Rightarrow> collaborator \<Rightarrow> collaborator"

record BaseConceptLearner =
  kb :: knowledge_base
  heuristic :: collaborator
  quality_func :: collaborator
  rho :: collaborator
  search_tree :: collaborator
  max_num_of_concepts_tested :: "int option"
  concepts_to_ignore :: "string set"
  start_class :: collaborator
  iter_bound :: int
  terminate_on_goal :: bool
  verbose :: bool

text \<open>
  The order is the source's: \<^verbatim>\<open>assert knowledge_base\<close> first; then each missing
  collaborator is replaced; then the assertions on the root concept, the quality function,
  the heuristic and the refinement operator. \<^verbatim>\<open>assert self.search_tree is not None\<close>
  cannot fail at that point, the tree being either the given object or a new one.
\<close>

definition BaseConceptLearner_init ::
  "default_classes \<Rightarrow> knowledge_base option \<Rightarrow> collaborator option \<Rightarrow> collaborator option
   \<Rightarrow> collaborator option \<Rightarrow> collaborator option \<Rightarrow> bool \<Rightarrow> int \<Rightarrow> int \<Rightarrow> bool
   \<Rightarrow> int option \<Rightarrow> string set option \<Rightarrow> collaborator option
   \<Rightarrow> error + BaseConceptLearner" where
  "BaseConceptLearner_init d knowledge_base refinement_operator quality_func' heuristic_func
       search_tree' terminate_on_goal' iter_bound' max_child_length verbose'
       max_num_of_concepts_tested' ignored_concepts root_concept =
     (let ignored = (case ignored_concepts of None \<Rightarrow> {} | Some s \<Rightarrow> s)
      in case knowledge_base of
           None \<Rightarrow> Inl AssertionError
         | Some k \<Rightarrow>
             if \<not> truthy k then Inl AssertionError
             else
               (let rho1 = (case refinement_operator of
                              None \<Rightarrow> ModifiedCELOERefinement d k max_child_length
                            | Some r \<Rightarrow> r);
                    heuristic1 = (case heuristic_func of
                                    None \<Rightarrow> CELOEHeuristic d
                                  | Some h \<Rightarrow> h);
                    quality1 = (case quality_func' of None \<Rightarrow> F1 d | Some q \<Rightarrow> q);
                    tree1 = (case search_tree' of
                               None \<Rightarrow> CELOESearchTree d quality1 heuristic1
                             | Some t \<Rightarrow> t);
                    start1 = (case root_concept of None \<Rightarrow> thing k | Some c \<Rightarrow> Some c)
                in case start1 of
                     None \<Rightarrow> Inl AssertionError
                   | Some sc \<Rightarrow>
                       if \<not> truthy sc then Inl AssertionError
                       else if \<not> truthy quality1 then Inl AssertionError
                       else if \<not> truthy heuristic1 then Inl AssertionError
                       else if \<not> truthy rho1 then Inl AssertionError
                       else Inr \<lparr>kb = k, heuristic = heuristic1, quality_func = quality1,
                                 rho = rho1, search_tree = tree1,
                                 max_num_of_concepts_tested = max_num_of_concepts_tested',
                                 concepts_to_ignore = ignored, start_class = sc,
                                 iter_bound = iter_bound',
                                 terminate_on_goal = terminate_on_goal',
                                 verbose = verbose'\<rparr>))"

section \<open>F1 score (examples/concept_learning_evaluation.py)\<close>

text \<open>
  Python's \<^verbatim>\<open>/\<close>, \<^verbatim>\<open>*\<close> and \<^verbatim>\<open>+\<close> on floats are the operations of IEEE 754
  binary64: each returns the exact result rounded to the nearest representable number, ties
  to the even significand, and \<^verbatim>\<open>int / int\<close> is the correctly rounded quotient of the two
  integers. \<open>round64\<close> is that rounding on the rationals: \<open>binade x\<close> is the exponent
  \<open>e\<close> with \<^verbatim>\<open>2^e <= x < 2^(e+1)\<close>, and \<open>x\<close> is rounded to a multiple of
  \<^verbatim>\<open>2^(e-52)\<close>, which gives 53 significant bits. The exponent range is not bounded:
  for sets of fewer than \<^verbatim>\<open>2^53\<close> elements every intermediate value of
  \<^verbatim>\<open>compute_f1_score\<close> lies between \<^verbatim>\<open>2^-108\<close> and 2, far inside binary64's normal
  range.
\<close>

definition binade :: "rat \<Rightarrow> int" where
  "binade x = (let (a, b) = quotient_of x; e0 = bitlen a - bitlen b
               in if 2 powi e0 \<le> x then e0 else e0 - 1)"

definition round_half_even :: "rat \<Rightarrow> int" where
  "round_half_even m =
     (let f = \<lfloor>m\<rfloor>; d = m - of_int f
      in if d < 1 / 2 then f else if 1 / 2 < d then f + 1 else if even f then f else f + 1)"

definition round64 :: "rat \<Rightarrow> rat" where
  "round64 x =
     (if x = 0 then 0
      else (let q = 2 powi (binade \<bar>x\<bar> - 52)
            in sgn x * of_int (round_half_even (\<bar>x\<bar> / q)) * q))"

definition unit_roundoff :: rat where
  "unit_roundoff = 1 / 2 ^ 53"

text \<open>
  \<^verbatim>\<open>compute_f1_score\<close>, written over the rounding \<open>fl\<close> applied to the result of every
  arithmetic operation, so that one text is both the code (\<open>fl = round64\<close>) and its reading
  in exact arithmetic (\<open>fl\<close> the identity). The four counts are Python integers. The two
  \<^verbatim>\<open>try\<close> blocks turn a division by zero into the result 0; the last division is not
  guarded and raises when the rounded sum is zero. The result is the integer 0 or a float.
\<close>

definition compute_f1_score_with ::
  "(rat \<Rightarrow> rat) \<Rightarrow> 'a set \<Rightarrow> 'a set \<Rightarrow> 'a set \<Rightarrow> error + rat" where
  "compute_f1_score_with fl individuals pos neg =
     (let tp = int (card (pos \<inter> individuals));
          tn = int (card (neg - individuals));
          fp = int (card (neg \<inter> individuals));
          fn = int (card (pos - individuals))
      in if tp + fn = 0 then Inr 0
         else
           (let recall = fl (of_int tp / of_int (tp + fn))
            in if tp + fp = 0 then Inr 0
               else
                 (let precision = fl (of_int tp / of_int (tp + fp))
                  in if precision = 0 \<or> recall = 0 then Inr 0
                     else if fl (precision + recall) = 0 then Inl ZeroDivisionError
                     else Inr (fl (2 * fl (fl (precision * recall)
                                            / fl (precision + recall)))))))"

definition compute_f1_score :: "'a set \<Rightarrow> 'a set \<Rightarrow> 'a set \<Rightarrow> error + rat" where
  "compute_f1_score = compute_f1_score_with round64"

text \<open>
  The value the specification gives: \<open>tp / (tp + (fp + fn) / 2)\<close>, and 0 when precision or
  recall is zero or undefined, which is the case exactly when \<open>tp = 0\<close>.
\<close>

definition f1_closed_form :: "int \<Rightarrow> int \<Rightarrow> int \<Rightarrow> rat" where
  "f1_closed_form tp fp fn =
     (if tp = 0 then 0 else of_int tp / (of_int tp + (of_int fp + of_int fn) / 2))"

section \<open>Size-budget decomposition (core/util.py)\<close>

text \<open>
  \<^verbatim>\<open>decompose(number, upperlimit, bisher, combosTmp)\<close> runs a \<^verbatim>\<open>while i >= 1\<close> loop from
  \<^verbatim>\<open>i = min(number, upperlimit)\<close> downwards and calls itself inside the loop body.
  The loop is the function \<open>decompose_loop\<close>, whose first argument is the loop variable;
  the recursive call \<^verbatim>\<open>decompose(number - i - 1, i, newbisher, combosTmp)\<close> is the loop entered
  at \<open>min (number - i - 1) i\<close>. Nothing is assumed about termination: the function lives in
  the option monad, and \<open>None\<close> is a run that never returns.

  \<^verbatim>\<open>combosTmp\<close> is the list the source appends to; it is threaded through and returned.
  \<^verbatim>\<open>newbisher\<close> is a fresh list in every branch but \<^verbatim>\<open>i == 0\<close>, where it aliases
  \<^verbatim>\<open>bisher\<close> and the append changes both; the pair \<open>(newbisher, bisher1)\<close> keeps that.
  Python integers are unbounded, hence \<open>int\<close>. The interpreter's limit on the depth of
  recursion is not part of the model.
\<close>

partial_function (option) decompose_loop ::
  "int \<Rightarrow> int \<Rightarrow> int list \<Rightarrow> int list list \<Rightarrow> int list list option" where
  "decompose_loop i number bisher combosTmp =
     (if i \<ge> 1 then
        (let (newbisher, bisher1) =
               (if i = 0 then (bisher @ [i], bisher @ [i])
                else if number - i \<noteq> 1 then (bisher @ [i], bisher)
                else ([], bisher))
         in do {
           combos1 \<leftarrow>
             (if number - i > 1
              then decompose_loop (min (number - i - 1) i) (number - i - 1) newbisher combosTmp
              else if number - i = 0 then Some (combosTmp @ [newbisher])
              else Some combosTmp);
           decompose_loop (i - 1) number bisher1 combos1
         })
      else Some combosTmp)"

declare decompose_loop.simps [code]

definition decompose ::
  "int \<Rightarrow> int \<Rightarrow> int list \<Rightarrow> int list list \<Rightarrow> int list list option" where
  "decompose number upperlimit bisher combosTmp =
     decompose_loop (min number upperlimit) number bisher combosTmp"

definition getCombos :: "int \<Rightarrow> int \<Rightarrow> int list list option" where
  "getCombos len max_length = decompose len max_length [] []"

text \<open>
  What one emitted combination looks like, relative to the budget \<open>n\<close> it was produced for
  and the bound \<open>ub\<close> on its entries: non-empty, non-increasing, entries between 1 and
  \<open>ub\<close>, and the entries plus one separator per gap use up the budget exactly.
\<close>

definition splits_budget :: "int \<Rightarrow> int \<Rightarrow> int list \<Rightarrow> bool" where
  "splits_budget ub n ext \<longleftrightarrow>
     ext \<noteq> [] \<and> sorted_wrt (\<ge>) ext \<and> (\<forall>x \<in> set ext. 1 \<le> x \<and> x \<le> ub)
     \<and> sum_list ext + (int (length ext) - 1) = n"

section \<open>A small world to run the code on\<close>

text \<open>
  Six individuals, a role with three pairs, the atomic concepts \<open>A = {1, 2, 3}\<close> and
  \<open>B = {3, 4, 5}\<close> of the specification's scenario and a few more, and a generator with
  size bounds 2 and 5 as its constructor leaves it. \<open>ex_P1\<close> and \<open>ex_P2\<close> are two classes
  with the same local name in two namespaces; \<open>ex_N\<close> is a class named \<^verbatim>\<open>Nothing\<close> that
  is not the bottom concept; \<open>ex_kb_without_thing\<close> is a knowledge base whose \<^verbatim>\<open>thing\<close> is
  \<^verbatim>\<open>None\<close>. \<open>ex_len\<close> reads \<^verbatim>\<open>len\<close> of a concept as the size of its
  extension, as the specification does. \<open>ex_new\<close> is the shape of a concept the generator
  builds.
\<close>

definition ex_class :: "nat \<Rightarrow> string \<Rightarrow> string \<Rightarrow> individual set \<Rightarrow> concept" where
  "ex_class i ns nm ext =
     \<lparr>oid = i, owl = \<lparr>name = py nm, base_iri = py ns\<rparr>, form = Class, str = py nm,
      full_iri = py ns @ py nm, instances = ext\<rparr>"

definition ex_T :: concept where
  "ex_T = ex_class 0 ''http://www.w3.org/2002/07/owl#'' ''Thing'' {1, 2, 3, 4, 5, 6}"

definition ex_Bottom :: concept where
  "ex_Bottom = ex_class 1 ''http://www.w3.org/2002/07/owl#'' ''Nothing'' {}"

definition ex_A :: concept where
  "ex_A = ex_class 2 ''http://example.org/'' ''A'' {1, 2, 3}"

definition ex_B :: concept where
  "ex_B = ex_class 3 ''http://example.org/'' ''B'' {3, 4, 5}"

definition ex_C :: concept where
  "ex_C = ex_class 4 ''http://example.org/'' ''C'' {4, 5, 6}"

definition ex_D :: concept where
  "ex_D = ex_class 5 ''http://example.org/'' ''D'' {1, 2, 3, 4, 5, 6}"

definition ex_P1 :: concept where
  "ex_P1 = ex_class 6 ''http://a.example.org/'' ''Person'' {1, 2}"

definition ex_P2 :: concept where
  "ex_P2 = ex_class 7 ''http://b.example.org/'' ''Person'' {3, 4}"

definition ex_N :: concept where
  "ex_N = ex_class 8 ''http://example.org/'' ''Nothing'' {}"

definition ex_R :: role where
  "ex_R = \<lparr>role_oid = 9, role_name = py ''R'', get_relations = [(1, 2), (2, 3), (4, 5)]\<rparr>"

definition ex_len :: "concept \<Rightarrow> nat" where
  "ex_len c = card (instances c)"

definition ex_gen :: ConceptGenerator where
  "ex_gen = \<lparr>min_size_of_concept = 2, max_size_of_concept = 5,
             namespace_base_iri = py ''https://dice-research.org/'',
             concepts = Map.empty, T = ex_T, Bottom = ex_Bottom,
             log_of_intersections = Map.empty, log_of_unions = Map.empty,
             log_of_negations = Map.empty,
             log_of_universal_restriction = Map.empty,
             log_of_existential_restriction = Map.empty,
             next_oid = 10\<rparr>"

definition ex_new :: "nat \<Rightarrow> pystr \<Rightarrow> form \<Rightarrow> individual set \<Rightarrow> concept" where
  "ex_new i nm f ext =
     \<lparr>oid = i, owl = \<lparr>name = nm, base_iri = py ''https://dice-research.org/''\<rparr>, form = f,
      str = nm, full_iri = py ''https://dice-research.org/'' @ nm, instances = ext\<rparr>"

definition ex_object :: "string \<Rightarrow> collaborator" where
  "ex_object l = \<lparr>label = l, truthy = True\<rparr>"

definition ex_defaults :: default_classes where
  "ex_defaults =
     \<lparr>ModifiedCELOERefinement = (\<lambda>k n. ex_object ''ModifiedCELOERefinement''),
      CELOEHeuristic = ex_object ''CELOEHeuristic'', F1 = ex_object ''F1'',
      CELOESearchTree = (\<lambda>q h. ex_object ''CELOESearchTree'')\<rparr>"

definition ex_kb :: knowledge_base where
  "ex_kb = \<lparr>label = ''KnowledgeBase'', truthy = True, thing = Some (ex_object ''Thing'')\<rparr>"

definition ex_kb_without_thing :: knowledge_base where
  "ex_kb_without_thing = \<lparr>label = ''KnowledgeBase'', truthy = True, thing = None\<rparr>"

lemmas ex_defs = ex_class_def ex_T_def ex_Bottom_def ex_A_def ex_B_def ex_C_def
  ex_D_def ex_P1_def ex_P2_def ex_N_def ex_R_def ex_len_def ex_gen_def py_def

lemmas run_defs = negation_def union_c_def intersection_def existential_restriction_def
  universal_restriction_def get_instances_for_restrictions_def within_size_bounds_def
  concepts_sorter_def Concept_def Let_def ex_new_def ex_defs

section \<open>Termination of the decomposition\<close>

text \<open>
  Every run of the loop returns. The induction is on the budget \<open>number\<close> first and on the
  loop variable second: the nested call is made only when \<open>number - i > 1\<close> with \<open>i \<ge> 1\<close>,
  so its budget \<open>number - i - 1\<close> is smaller, and the next iteration keeps the budget and
  lowers \<open>i\<close>.
\<close>

lemma decompose_loop_returns:
  "\<exists>r. decompose_loop i number bisher combosTmp = Some r"
proof (induction "nat number" arbitrary: number i bisher combosTmp rule: less_induct)
  case less
  note outer = less
  show ?case
  proof (induction "nat i" arbitrary: i bisher combosTmp rule: less_induct)
    case less
    show ?case
    proof (cases "1 \<le> i")
      case False
      then show ?thesis by (subst decompose_loop.simps) simp
    next
      case True
      have next_ok: "\<exists>r. decompose_loop (i - 1) number b c = Some r" for b c
        using less[of "i - 1" b c] True by simp
      have inner_ok:
        "\<exists>r. decompose_loop (min (number - i - 1) i) (number - i - 1) b c = Some r"
        if "1 < number - i" for b c
        using outer[of "number - i - 1" "min (number - i - 1) i" b c] True that by simp
      show ?thesis
      proof (cases "1 < number - i")
        case deeper: True
        obtain c1 where c1:
          "decompose_loop (min (number - i - 1) i) (number - i - 1) (bisher @ [i]) combosTmp
             = Some c1"
          using inner_ok[OF deeper] by blast
        obtain r where r: "decompose_loop (i - 1) number bisher c1 = Some r"
          using next_ok by blast
        show ?thesis
          using True deeper c1 r by (subst decompose_loop.simps) simp
      next
        case shallow: False
        show ?thesis
        proof (cases "number - i = 0")
          case True
          obtain r where r:
            "decompose_loop (i - 1) number bisher (combosTmp @ [bisher @ [i]]) = Some r"
            using next_ok by blast
          show ?thesis
            using \<open>1 \<le> i\<close> shallow True r by (subst decompose_loop.simps) simp
        next
          case False
          obtain r1 where r1: "decompose_loop (i - 1) number bisher combosTmp = Some r1"
            using next_ok by blast
          show ?thesis
            using \<open>1 \<le> i\<close> shallow False r1 by (subst decompose_loop.simps) simp
        qed
      qed
    qed
  qed
qed

text \<open>
  Claim C8. The size-budget decomposition terminates on every input: for all integers
  \<open>len\<close> and \<open>max_length\<close>, \<open>getCombos len max_length\<close> returns a list of combinations,
  and so does \<open>decompose\<close> from any budget, limit, prefix and accumulator.
\<close>

theorem getCombos_terminates:
  "(\<exists>combos. getCombos len max_length = Some combos) \<and>
   (\<exists>combos. decompose number upperlimit bisher combosTmp = Some combos)"
  unfolding getCombos_def decompose_def
  using decompose_loop_returns by blast

section \<open>Shape of the combinations\<close>

lemma splits_budget_mono:
  "splits_budget ub n ext \<Longrightarrow> ub \<le> ub' \<Longrightarrow> splits_budget ub' n ext"
  by (fastforce simp: splits_budget_def)

lemma splits_budget_single: "1 \<le> i \<Longrightarrow> splits_budget i i [i]"
  by (simp add: splits_budget_def)

lemma splits_budget_Cons:
  assumes "splits_budget (min (n - i - 1) i) (n - i - 1) ext" "1 \<le> i"
  shows "splits_budget i n (i # ext)"
  using assms by (auto simp: splits_budget_def)

text \<open>
  Whatever a run of the loop returns is the accumulator followed by new combinations, each
  the prefix \<open>bisher\<close> extended by a list that splits the budget. This is a statement about
  returned results only, so it is proved by induction over the fixed point that defines the
  loop; that a result is returned at all is \<open>decompose_loop_returns\<close>.
\<close>

lemma decompose_loop_combos:
  assumes "decompose_loop i number bisher combosTmp = Some r"
  shows "\<exists>new. r = combosTmp @ new \<and>
     (\<forall>combo \<in> set new. \<exists>ext. combo = bisher @ ext \<and> splits_budget i number ext)"
  using assms
proof (induction rule: decompose_loop.raw_induct [rotated 1, consumes 1])
  case (1 loop i number bisher combosTmp r)
  have widen: "\<exists>ext. combo = bisher @ ext \<and> splits_budget i number ext"
    if "\<forall>combo \<in> set new2. \<exists>ext. combo = bisher @ ext \<and> splits_budget (i - 1) number ext"
      and "combo \<in> set new2" for combo new2
    using that splits_budget_mono[of "i - 1" number _ i] by fastforce
  show ?case
  proof (cases "1 \<le> i")
    case False
    with 1(2) show ?thesis by simp
  next
    case True
    consider (deeper) "1 < number - i" | (exact) "number - i = 0"
      | (skip) "\<not> 1 < number - i" "number - i \<noteq> 0"
      by blast
    then show ?thesis
    proof cases
      case deeper
      from 1(2) True deeper obtain c1 where
        c1: "loop (min (number - i - 1) i) (number - i - 1) (bisher @ [i]) combosTmp = Some c1"
        and r: "loop (i - 1) number bisher c1 = Some r"
        by (auto split: bind_splits if_splits)
      from 1(1)[OF c1] obtain new1 where n1: "c1 = combosTmp @ new1"
        "\<forall>combo \<in> set new1. \<exists>ext. combo = (bisher @ [i]) @ ext
            \<and> splits_budget (min (number - i - 1) i) (number - i - 1) ext"
        by blast
      from 1(1)[OF r] obtain new2 where n2: "r = c1 @ new2"
        "\<forall>combo \<in> set new2. \<exists>ext. combo = bisher @ ext \<and> splits_budget (i - 1) number ext"
        by blast
      have "\<exists>ext. combo = bisher @ ext \<and> splits_budget i number ext"
        if "combo \<in> set new1" for combo
      proof -
        from n1(2) that obtain ext where "combo = (bisher @ [i]) @ ext"
          "splits_budget (min (number - i - 1) i) (number - i - 1) ext" by blast
        then have "combo = bisher @ (i # ext)" "splits_budget i number (i # ext)"
          using splits_budget_Cons True by simp_all
        then show ?thesis by blast
      qed
      moreover have "\<exists>ext. combo = bisher @ ext \<and> splits_budget i number ext"
        if "combo \<in> set new2" for combo
        using widen[OF n2(2) that] .
      ultimately show ?thesis
        using n1(1) n2(1) by (intro exI[of _ "new1 @ new2"]) auto
    next
      case exact
      from 1(2) True exact
      have r: "loop (i - 1) number bisher (combosTmp @ [bisher @ [i]]) = Some r"
        by (auto split: bind_splits if_splits)
      from 1(1)[OF r] obtain new2 where n2: "r = (combosTmp @ [bisher @ [i]]) @ new2"
        "\<forall>combo \<in> set new2. \<exists>ext. combo = bisher @ ext \<and> splits_budget (i - 1) number ext"
        by blast
      have "splits_budget i number [i]"
        using splits_budget_single[OF True] exact by simp
      moreover have "\<exists>ext. combo = bisher @ ext \<and> splits_budget i number ext"
        if "combo \<in> set new2" for combo
        using widen[OF n2(2) that] .
      ultimately show ?thesis
        using n2(1) by (intro exI[of _ "(bisher @ [i]) # new2"]) auto
    next
      case skip
      from 1(2) True skip have r: "loop (i - 1) number bisher combosTmp = Some r"
        by (auto split: bind_splits if_splits)
      from 1(1)[OF r] obtain new2 where n2: "r = combosTmp @ new2"
        "\<forall>combo \<in> set new2. \<exists>ext. combo = bisher @ ext \<and> splits_budget (i - 1) number ext"
        by blast
      have "\<exists>ext. combo = bisher @ ext \<and> splits_budget i number ext"
        if "combo \<in> set new2" for combo
        using widen[OF n2(2) that] .
      then show ?thesis using n2(1) by blast
    qed
  qed
qed

text \<open>
  Claim C10. For positive \<open>len\<close> and \<open>max_length\<close>, every list returned by
  \<open>getCombos len max_length\<close> is a non-increasing sequence of positive integers, each at
  most \<open>min len max_length\<close>, and its sum plus one separator per gap is the budget:
  \<^verbatim>\<open>sum(combo) + (len(combo) - 1) == length\<close>.
\<close>

theorem getCombos_shape:
  assumes "0 < len" "0 < max_length"
    and "getCombos len max_length = Some combos"
    and "combo \<in> set combos"
  shows "sorted_wrt (\<ge>) combo
    \<and> (\<forall>x \<in> set combo. 0 < x \<and> x \<le> min len max_length)
    \<and> sum_list combo + (int (length combo) - 1) = len"
proof -
  from assms(3) have "decompose_loop (min len max_length) len [] [] = Some combos"
    by (simp add: getCombos_def decompose_def)
  from decompose_loop_combos[OF this] assms(4)
  have "splits_budget (min len max_length) len combo"
    by auto
  then show ?thesis
    by (auto simp: splits_budget_def)
qed

theorem getCombos_shape_witness:
  "getCombos 5 5 = Some [[5], [3, 1], [2, 2], [1, 1, 1]]
   \<and> [3, 1] \<in> set [[5], [3, 1], [2, 2], [1, 1, 1::int]]
   \<and> sorted_wrt (\<ge>) [3, 1::int]
   \<and> list_all (\<lambda>x. 0 < x \<and> x \<le> min 5 5) [3, 1::int]
   \<and> sum_list [3, 1::int] + (int (length [3, 1::int]) - 1) = 5"
proof -
  have run: "getCombos 5 5 = Some [[5], [3, 1], [2, 2], [1, 1, 1]]"
    by code_simp
  have mem: "[3, 1] \<in> set [[5], [3, 1], [2, 2], [1, 1, 1::int]]"
    by simp
  show ?thesis
    using getCombos_shape[of 5 5 "[[5], [3, 1], [2, 2], [1, 1, 1]]" "[3, 1]", OF _ _ run mem]
      run mem by simp
qed

section \<open>The generator: sorting, extensions and what the logs hold\<close>

lemma concepts_sorter_cases:
  "concepts_sorter len_c A B = (A, B) \<or> concepts_sorter len_c A B = (B, A)"
  by (simp add: concepts_sorter_def)

lemma sorter_pair:
  assumes "concepts_sorter len_c A B = (A', B')"
  shows "(A' = A \<and> B' = B) \<or> (A' = B \<and> B' = A)"
  using assms concepts_sorter_cases[of len_c A B] by auto

text \<open>
  The sorter puts two operands in one order whichever way round they are given, unless they
  tie on both keys: then the stable sort keeps the order of the call.
\<close>

lemma concepts_sorter_commute:
  assumes "len_c A \<noteq> len_c B \<or> str A \<noteq> str B \<or> A = B"
  shows "concepts_sorter len_c B A = concepts_sorter len_c A B"
  using assms by (auto simp: concepts_sorter_def)

lemma fold_existential:
  "fold (\<lambda>(x, y) temp. if y \<in> S then insert x temp else temp) rel acc
     = acc \<union> {x. \<exists>y. (x, y) \<in> set rel \<and> y \<in> S}"
  by (induction rel arbitrary: acc) (auto split: if_splits)

lemma fold_universal:
  "fold (\<lambda>(s, ob) temp. if \<not> (ob \<in> S) then insert ob temp else temp) rel acc
     = acc \<union> {ob. \<exists>s. (s, ob) \<in> set rel \<and> ob \<notin> S}"
  by (induction rel arbitrary: acc) (auto split: if_splits)

text \<open>
  The two extensions in closed form. The existential one is the set of subjects with a
  successor in the filler. The other one is the universe without the \<^emph>\<open>successors\<close> that
  lie outside the filler; the subjects they belong to stay in.
\<close>

lemma get_instances_existential:
  "get_instances_for_restrictions self True rl c
     = {x. \<exists>y. (x, y) \<in> set (get_relations rl) \<and> y \<in> instances c}"
  by (simp add: get_instances_for_restrictions_def fold_existential)

lemma get_instances_universal:
  "get_instances_for_restrictions self False rl c
     = instances (T self)
         - {ob. \<exists>s. (s, ob) \<in> set (get_relations rl) \<and> ob \<notin> instances c}"
  by (simp add: get_instances_for_restrictions_def fold_universal)

lemma same_config_bounds:
  "same_config s s' \<Longrightarrow> within_size_bounds s' X = within_size_bounds s X"
  by (simp add: same_config_def within_size_bounds_def)

lemma same_config_get_instances:
  "same_config s s' \<Longrightarrow>
     get_instances_for_restrictions s' e rl c = get_instances_for_restrictions s e rl c"
  by (simp add: same_config_def get_instances_for_restrictions_def)

lemma negation_config: "same_config self (snd (negation self c))"
  by (simp add: negation_def same_config_def Let_def split: option.split)

lemma existential_config: "same_config self (snd (existential_restriction self c rl))"
  by (simp add: existential_restriction_def same_config_def Let_def split: option.split)

lemma universal_config: "same_config self (snd (universal_restriction self c rl))"
  by (simp add: universal_restriction_def same_config_def Let_def split: option.split)

lemma union_config: "same_config self (snd (union_c len_c self A B))"
  by (simp add: union_c_def same_config_def Let_def split: option.split prod.split)

lemma intersection_config: "same_config self (snd (intersection len_c self A B))"
  by (simp add: intersection_def same_config_def Let_def split: option.split prod.split)

lemma cache_inv_init:
  "ConceptGenerator_init concepts0 T0 Bottom0 max_size min_size fresh = Inr self
   \<Longrightarrow> cache_inv self"
  by (auto simp: ConceptGenerator_init_def cache_inv_def split: if_splits)

lemma cache_inv_negation:
  assumes "cache_inv self"
  shows "cache_inv (snd (negation self c))"
proof -
  let ?s = "snd (negation self c)"
  have cfg: "same_config self ?s" by (rule negation_config)
  have logs: "log_of_intersections ?s = log_of_intersections self"
    "log_of_unions ?s = log_of_unions self"
    "log_of_existential_restriction ?s = log_of_existential_restriction self"
    "log_of_universal_restriction ?s = log_of_universal_restriction self"
    by (simp_all add: negation_def Let_def split: option.split)
  have neg: "name (owl k) \<noteq> py ''Thing''"
    if "log_of_negations ?s (Concept_key k) = Some r" for k r
    using that assms
    by (auto simp: negation_def Let_def cache_inv_def split: option.splits if_splits)
  show ?thesis
    using assms neg cfg unfolding cache_inv_def logs
    by (simp add: same_config_bounds[OF cfg] same_config_get_instances[OF cfg])
      (auto simp: same_config_def)
qed

lemma cache_inv_existential:
  assumes "cache_inv self"
  shows "cache_inv (snd (existential_restriction self c rl))"
proof -
  let ?s = "snd (existential_restriction self c rl)"
  have cfg: "same_config self ?s" by (rule existential_config)
  have logs: "log_of_intersections ?s = log_of_intersections self"
    "log_of_unions ?s = log_of_unions self"
    "log_of_negations ?s = log_of_negations self"
    "log_of_universal_restriction ?s = log_of_universal_restriction self"
    by (simp_all add: existential_restriction_def Let_def split: option.split)
  have new: "within_size_bounds self (get_instances_for_restrictions self True k2 k1)"
    if "log_of_existential_restriction ?s (k1, k2) = Some r" for k1 k2 r
    using that assms
    by (auto simp: existential_restriction_def Let_def cache_inv_def
        split: option.splits if_splits)
  show ?thesis
    using assms new cfg unfolding cache_inv_def logs
    by (simp add: same_config_bounds[OF cfg] same_config_get_instances[OF cfg])
      (auto simp: same_config_def)
qed

lemma cache_inv_universal:
  assumes "cache_inv self"
  shows "cache_inv (snd (universal_restriction self c rl))"
proof -
  let ?s = "snd (universal_restriction self c rl)"
  have cfg: "same_config self ?s" by (rule universal_config)
  have logs: "log_of_intersections ?s = log_of_intersections self"
    "log_of_unions ?s = log_of_unions self"
    "log_of_negations ?s = log_of_negations self"
    "log_of_existential_restriction ?s = log_of_existential_restriction self"
    by (simp_all add: universal_restriction_def Let_def split: option.split)
  have new: "within_size_bounds self (get_instances_for_restrictions self False k2 k1)"
    if "log_of_universal_restriction ?s (k1, k2) = Some r" for k1 k2 r
    using that assms
    by (auto simp: universal_restriction_def Let_def cache_inv_def
        split: option.splits if_splits)
  show ?thesis
    using assms new cfg unfolding cache_inv_def logs
    by (simp add: same_config_bounds[OF cfg] same_config_get_instances[OF cfg])
      (auto simp: same_config_def)
qed

lemma cache_inv_union:
  assumes "cache_inv self"
  shows "cache_inv (snd (union_c len_c self A B))"
proof -
  let ?s = "snd (union_c len_c self A B)"
  have cfg: "same_config self ?s" by (rule union_config)
  have logs: "log_of_intersections ?s = log_of_intersections self"
    "log_of_negations ?s = log_of_negations self"
    "log_of_existential_restriction ?s = log_of_existential_restriction self"
    "log_of_universal_restriction ?s = log_of_universal_restriction self"
    by (simp_all add: union_c_def Let_def split: option.split prod.split)
  have new: "within_size_bounds self (instances k1 \<union> instances k2)"
    if "log_of_unions ?s (k1, k2) = Some r" for k1 k2 r
    using that assms
    by (auto simp: union_c_def Let_def cache_inv_def
        split: option.splits if_splits prod.splits)
  show ?thesis
    using assms new cfg unfolding cache_inv_def logs
    by (simp add: same_config_bounds[OF cfg] same_config_get_instances[OF cfg])
      (auto simp: same_config_def)
qed

lemma cache_inv_intersection:
  assumes "cache_inv self"
  shows "cache_inv (snd (intersection len_c self A B))"
proof -
  let ?s = "snd (intersection len_c self A B)"
  have cfg: "same_config self ?s" by (rule intersection_config)
  have logs: "log_of_unions ?s = log_of_unions self"
    "log_of_negations ?s = log_of_negations self"
    "log_of_existential_restriction ?s = log_of_existential_restriction self"
    "log_of_universal_restriction ?s = log_of_universal_restriction self"
    by (simp_all add: intersection_def Let_def split: option.split prod.split)
  have old: "if str k1 = py ''Nothing'' \<or> str k2 = py ''Nothing'' then r = Bottom self
          else within_size_bounds self (instances k1 \<inter> instances k2)"
    if "log_of_intersections self (k1, k2) = Some r" for k1 k2 r
    using that assms unfolding cache_inv_def by blast
  have step: "log_of_intersections self k = Some r
      \<or> (if str (fst k) = py ''Nothing'' \<or> str (snd k) = py ''Nothing'' then r = Bottom self
          else within_size_bounds self (instances (fst k) \<inter> instances (snd k)))"
    if "log_of_intersections ?s k = Some r" for k r
    using that
    by (cases "concepts_sorter len_c A B")
      (auto simp: intersection_def Let_def split: option.splits if_splits)
  have new: "if str k1 = py ''Nothing'' \<or> str k2 = py ''Nothing'' then r = Bottom self
          else within_size_bounds self (instances k1 \<inter> instances k2)"
    if "log_of_intersections ?s (k1, k2) = Some r" for k1 k2 r
    using step[OF that] old[of k1 k2 r] by auto
  have bot: "Bottom ?s = Bottom self" using cfg by (simp add: same_config_def)
  show ?thesis
    using assms new unfolding cache_inv_def logs bot
    by (simp add: same_config_bounds[OF cfg] same_config_get_instances[OF cfg])
qed

lemma reachable_cache_inv: "reachable len_c self \<Longrightarrow> cache_inv self"
proof (induction rule: reachable.induct)
  case (constructed concepts0 T0 Bottom0 max_size min_size fresh self)
  then show ?case by (rule cache_inv_init)
next
  case (after_negation self c)
  then show ?case by (simp add: cache_inv_negation)
next
  case (after_existential self c r)
  then show ?case by (simp add: cache_inv_existential)
next
  case (after_universal self c r)
  then show ?case by (simp add: cache_inv_universal)
next
  case (after_union self A B)
  then show ?case by (simp add: cache_inv_union)
next
  case (after_intersection self A B)
  then show ?case by (simp add: cache_inv_intersection)
qed



section \<open>Universal restriction\<close>

text \<open>
  What \<^verbatim>\<open>universal_restriction\<close> stores as the extension of a concept it builds.
\<close>

lemma universal_restriction_extension:
  assumes "log_of_universal_restriction self (c, rl) = None"
    and "within_size_bounds self (get_instances_for_restrictions self False rl c)"
  shows "instances (fst (universal_restriction self c rl))
     = instances (T self)
         - {ob. \<exists>s. (s, ob) \<in> set (get_relations rl) \<and> ob \<notin> instances c}"
  using assms
  by (simp add: universal_restriction_def Let_def get_instances_universal)

text \<open>
  Claim C1 says that the concept returned by \<^verbatim>\<open>universal_restriction(C, R)\<close>, when its
  extension is within the size bounds, has as extension exactly the individuals all of whose
  \<open>R\<close>-successors lie in the extension of \<open>C\<close>. The code does not compute that set. In the
  small world, with filler \<open>A = {1, 2, 3}\<close> and the pairs \<open>(1, 2)\<close>, \<open>(2, 3)\<close>, \<open>(4, 5)\<close>,
  the only individual with a successor outside \<open>A\<close> is 4, so the set of the claim is
  \<open>{1, 2, 3, 5, 6}\<close>; the code removes the successor 5 instead of the subject 4 and builds
  a concept with extension \<open>{1, 2, 3, 4, 6}\<close>, which has five members and is within the
  bounds 2 and 5.
\<close>

theorem universal_restriction_removes_successors:
  "fst (universal_restriction ex_gen ex_A ex_R)
     = ex_new 10 ([40, 8704] @ py ''R'' @ [46] @ py ''A'' @ [41]) ObjectAllValuesFrom
         {1, 2, 3, 4, 6}
   \<and> no_successor_outside (instances ex_T) (get_relations ex_R) (instances ex_A)
     = {1, 2, 3, 5, 6}
   \<and> {1, 2, 3, 4, 6} \<noteq> {1, 2, 3, 5, 6 :: individual}"
proof -
  have code: "fst (universal_restriction ex_gen ex_A ex_R)
     = ex_new 10 ([40, 8704] @ py ''R'' @ [46] @ py ''A'' @ [41]) ObjectAllValuesFrom
         {1, 2, 3, 4, 6}"
    by (auto simp add: run_defs)
  have book: "no_successor_outside (instances ex_T) (get_relations ex_R) (instances ex_A)
     = {1, 2, 3, 5, 6}"
    by (auto simp add: no_successor_outside_def ex_defs)
  have "{1, 2, 3, 4, 6} \<noteq> {1, 2, 3, 5, 6 :: individual}"
  proof
    assume "{1, 2, 3, 4, 6} = {1, 2, 3, 5, 6 :: individual}"
    then have "(4 :: individual) \<in> {1, 2, 3, 5, 6}" by blast
    then show False by simp
  qed
  with code book show ?thesis by blast
qed

section \<open>Collapse to Bottom outside the size bounds\<close>








section \<open>Negation\<close>

text \<open>
  The half of claim C3 the code meets: in every reachable state of a generator whose top
  concept wraps the class \<^verbatim>\<open>Thing\<close>, is not a complement and has an identifier other
  than that of \<open>Bottom\<close>, negating the top concept returns \<open>Bottom\<close> and builds nothing.
\<close>

lemma negation_Top:
  assumes "reachable len_c self" and "name (owl (T self)) = py ''Thing''"
    and "form (T self) \<noteq> ObjectComplementOf"
    and "full_iri (T self) \<noteq> full_iri (Bottom self)"
  shows "fst (negation self (T self)) = Inr (Bottom self)
    \<and> next_oid (snd (negation self (T self))) = next_oid self
    \<and> concepts (snd (negation self (T self))) = concepts self"
proof -
  have inv: "cache_inv self" using assms(1) by (rule reachable_cache_inv)
  have miss: "log_of_negations self (Concept_key (T self)) = None"
  proof (cases "log_of_negations self (Concept_key (T self))")
    case (Some r)
    with inv assms(2) show ?thesis unfolding cache_inv_def by blast
  qed simp
  show ?thesis
    using assms(2-4) by (simp add: negation_def miss Let_def)
qed

text \<open>
  Claim C3 says that negating \<open>Top\<close> returns the canonical \<open>Bottom\<close> and negating \<open>Bottom\<close>
  returns the canonical \<open>Top\<close>, neither constructing a concept. The second half fails. After
  \<^verbatim>\<open>negation(Top)\<close> the log does hold \<open>Top\<close> for \<open>Bottom\<close>, but under the IRI string of
  \<open>Bottom\<close>, while the lookup is made with the concept object: \<^verbatim>\<open>negation(Bottom)\<close>
  misses the log, takes the branch for classes not named \<^verbatim>\<open>Thing\<close> and returns a new
  concept, named \<^verbatim>\<open>Nothing\<close> behind a negation sign (code point 172), with the whole
  universe as extension.
\<close>

theorem negation_of_Bottom_builds_new_concept:
  "fst (negation ex_gen ex_T) = Inr ex_Bottom
   \<and> fst (negation (snd (negation ex_gen ex_T)) ex_Bottom)
       = Inr (ex_new 10 ([172] @ py ''Nothing'') ObjectComplementOf {1, 2, 3, 4, 5, 6})
   \<and> ex_new 10 ([172] @ py ''Nothing'') ObjectComplementOf {1, 2, 3, 4, 5, 6} \<noteq> ex_T
   \<and> log_of_negations (snd (negation ex_gen ex_T)) (Iri_key (full_iri ex_Bottom)) = Some ex_T
   \<and> log_of_negations (snd (negation ex_gen ex_T)) (Concept_key ex_Bottom) = None"
  by (simp add: run_defs)

text \<open>
  Claim C4 says that \<^verbatim>\<open>negation(negation(C))\<close> returns \<open>C\<close> itself for a concept that is
  neither \<open>Top\<close> nor \<open>Bottom\<close> and has a non-empty extension within the bounds. It does
  not: the branch that strips the negation sign is tested after the branch for classes not
  named \<^verbatim>\<open>Thing\<close>, which every complement takes. For \<open>A = {1, 2, 3}\<close> the first call
  builds the complement with extension \<open>{4, 5, 6}\<close>, and the second call builds one more
  concept, with two negation signs and the extension of \<open>A\<close>, which is not the object \<open>A\<close>.
\<close>

theorem double_negation_builds_new_concept:
  "fst (negation ex_gen ex_A) = Inr (ex_new 10 ([172] @ py ''A'') ObjectComplementOf {4, 5, 6})
   \<and> fst (negation (snd (negation ex_gen ex_A))
             (ex_new 10 ([172] @ py ''A'') ObjectComplementOf {4, 5, 6}))
       = Inr (ex_new 11 ([172, 172] @ py ''A'') ObjectComplementOf {1, 2, 3})
   \<and> ex_new 11 ([172, 172] @ py ''A'') ObjectComplementOf {1, 2, 3} \<noteq> ex_A"
proof -
  have first: "negation ex_gen ex_A =
      (Inr (ex_new 10 ([172] @ py ''A'') ObjectComplementOf {4, 5, 6}),
       ex_gen\<lparr>next_oid := 11,
         log_of_negations :=
           [Concept_key ex_A \<mapsto> ex_new 10 ([172] @ py ''A'') ObjectComplementOf {4, 5, 6}],
         concepts := [py ''https://dice-research.org/'' @ [172] @ py ''A''
                        \<mapsto> ex_new 10 ([172] @ py ''A'') ObjectComplementOf {4, 5, 6}]\<rparr>)"
    by (auto simp add: run_defs)
  have second: "fst (negation (snd (negation ex_gen ex_A))
             (ex_new 10 ([172] @ py ''A'') ObjectComplementOf {4, 5, 6}))
       = Inr (ex_new 11 ([172, 172] @ py ''A'') ObjectComplementOf {1, 2, 3})"
    unfolding first by (auto simp add: run_defs)
  have "ex_new 11 ([172, 172] @ py ''A'') ObjectComplementOf {1, 2, 3} \<noteq> ex_A"
    by (simp add: run_defs)
  with first second show ?thesis by simp
qed

section \<open>Derivations are answered from the logs\<close>

lemma negation_twice:
  "negation (snd (negation self C)) C = (fst (negation self C), snd (negation self C))"
proof (cases "log_of_negations self (Concept_key C)")
  case (Some r)
  then show ?thesis by (simp add: negation_def)
next
  case None
  show ?thesis
  proof (cases "name (owl C) = py ''Thing''")
    case False
    with None show ?thesis by (simp add: negation_def Let_def)
  next
    case True
    show ?thesis
    proof (cases "form C = ObjectComplementOf")
      case c: True
      with None True show ?thesis
        by (simp add: negation_def Let_def split: option.split)
    next
      case c: False
      with None True show ?thesis
        by (auto simp: negation_def Let_def)
    qed
  qed
qed

lemma negation_returns_concept:
  assumes "name (owl C) \<noteq> py ''Thing''"
  shows "\<exists>n. fst (negation self C) = Inr n"
  using assms by (simp add: negation_def Let_def split: option.split)

lemma union_swapped:
  assumes "len_c A \<noteq> len_c B \<or> str A \<noteq> str B \<or> A = B"
  shows "union_c len_c (snd (union_c len_c self A B)) B A = union_c len_c self A B"
proof -
  obtain A' B' where s: "concepts_sorter len_c A B = (A', B')"
    by (cases "concepts_sorter len_c A B")
  have s': "concepts_sorter len_c B A = (A', B')"
    using concepts_sorter_commute[OF assms] s by simp
  show ?thesis
  proof (cases "str A' = py ''Nothing'' \<or> str B' = py ''Nothing''")
    case True
    then show ?thesis by (auto simp: union_c_def s s')
  next
    case names: False
    show ?thesis
    proof (cases "log_of_unions self (A', B')")
      case (Some r)
      with names show ?thesis by (simp add: union_c_def s s')
    next
      case None
      with names show ?thesis
        by (simp add: union_c_def s s' Let_def)
    qed
  qed
qed

text \<open>
  Claim C5 as stated fails for two operands that tie on both sorting keys. \<open>ex_P1\<close> and
  \<open>ex_P2\<close> are different objects with the same string and the same length; the stable sort
  keeps each call's own order, so \<^verbatim>\<open>union(P1, P2)\<close> is logged under \<open>(P1, P2)\<close>,
  \<^verbatim>\<open>union(P2, P1)\<close> looks under \<open>(P2, P1)\<close>, misses and builds a second object.
\<close>

theorem union_of_same_named_operands_not_shared:
  "fst (union_c ex_len ex_gen ex_P1 ex_P2)
     = ex_new 10 ([40] @ py ''Person'' @ [32, 8852, 32] @ py ''Person'' @ [41]) ObjectUnionOf
         {1, 2, 3, 4}
   \<and> fst (union_c ex_len (snd (union_c ex_len ex_gen ex_P1 ex_P2)) ex_P2 ex_P1)
     = ex_new 11 ([40] @ py ''Person'' @ [32, 8852, 32] @ py ''Person'' @ [41]) ObjectUnionOf
         {1, 2, 3, 4}
   \<and> fst (union_c ex_len (snd (union_c ex_len ex_gen ex_P1 ex_P2)) ex_P2 ex_P1)
     \<noteq> fst (union_c ex_len ex_gen ex_P1 ex_P2)"
proof -
  have first: "union_c ex_len ex_gen ex_P1 ex_P2 =
     (ex_new 10 ([40] @ py ''Person'' @ [32, 8852, 32] @ py ''Person'' @ [41]) ObjectUnionOf
        {1, 2, 3, 4},
      ex_gen\<lparr>next_oid := 11,
        log_of_unions := [(ex_P1, ex_P2) \<mapsto>
          ex_new 10 ([40] @ py ''Person'' @ [32, 8852, 32] @ py ''Person'' @ [41])
            ObjectUnionOf {1, 2, 3, 4}],
        concepts := [py ''https://dice-research.org/'' @ [40] @ py ''Person''
             @ [32, 8852, 32] @ py ''Person'' @ [41]
          \<mapsto> ex_new 10 ([40] @ py ''Person'' @ [32, 8852, 32] @ py ''Person'' @ [41])
               ObjectUnionOf {1, 2, 3, 4}]\<rparr>)"
    by (auto simp add: run_defs)
  have second: "fst (union_c ex_len (snd (union_c ex_len ex_gen ex_P1 ex_P2)) ex_P2 ex_P1)
     = ex_new 11 ([40] @ py ''Person'' @ [32, 8852, 32] @ py ''Person'' @ [41]) ObjectUnionOf
         {1, 2, 3, 4}"
    unfolding first by (auto simp add: run_defs)
  show ?thesis unfolding second unfolding first by (simp add: ex_new_def)
qed

text \<open>
  Claim C5, amended. Derivation is answered from the logs. For every generator state and
  every concept \<open>C\<close>, a second call of \<^verbatim>\<open>negation(C)\<close> returns what the first call
  returned and leaves the generator as the first call left it; the result is a concept
  whenever the class of \<open>C\<close> is not named \<^verbatim>\<open>Thing\<close>. For every pair of concepts that
  differ in length or in string, or are the same object, \<^verbatim>\<open>union(B, A)\<close> called after
  \<^verbatim>\<open>union(A, B)\<close> returns the object the first call returned and changes nothing.
\<close>

theorem derivation_cached:
  "negation (snd (negation self C)) C = (fst (negation self C), snd (negation self C))
   \<and> (name (owl C) \<noteq> py ''Thing'' \<longrightarrow> (\<exists>n. fst (negation self C) = Inr n))
   \<and> ((len_c A \<noteq> len_c B \<or> str A \<noteq> str B \<or> A = B) \<longrightarrow>
        union_c len_c (snd (union_c len_c self A B)) B A = union_c len_c self A B)"
  using negation_twice negation_returns_concept union_swapped by blast

theorem derivation_cached_witness:
  "negation (snd (negation ex_gen ex_A)) ex_A
      = (fst (negation ex_gen ex_A), snd (negation ex_gen ex_A))
   \<and> name (owl ex_A) \<noteq> py ''Thing''
   \<and> (\<exists>n. fst (negation ex_gen ex_A) = Inr n)
   \<and> str ex_A \<noteq> str ex_B
   \<and> union_c ex_len (snd (union_c ex_len ex_gen ex_A ex_B)) ex_B ex_A
      = union_c ex_len ex_gen ex_A ex_B
   \<and> oid (fst (union_c ex_len ex_gen ex_A ex_B)) = 10"
proof -
  have names: "str ex_A \<noteq> str ex_B" "name (owl ex_A) \<noteq> py ''Thing''"
    by (simp_all add: ex_defs)
  have new: "oid (fst (union_c ex_len ex_gen ex_A ex_B)) = 10"
    by (simp add: run_defs card_insert_if)
  show ?thesis
    using derivation_cached[of ex_gen ex_A ex_len ex_A ex_B] names new by simp
qed

section \<open>Shortcuts for the bottom concept\<close>

text \<open>
  What \<^verbatim>\<open>union\<close> does with the bottom concept as an operand: it returns the other
  operand when that operand is not itself called \<^verbatim>\<open>Nothing\<close>, or is \<open>Bottom\<close>.
\<close>

lemma union_Bottom_right:
  assumes "str (Bottom self) = py ''Nothing''" "str C \<noteq> py ''Nothing'' \<or> C = Bottom self"
  shows "union_c len_c self C (Bottom self) = (C, self)"
proof -
  obtain A' B' where s: "concepts_sorter len_c C (Bottom self) = (A', B')"
    by (cases "concepts_sorter len_c C (Bottom self)")
  from sorter_pair[OF s] assms show ?thesis
    by (auto simp: union_c_def s)
qed

lemma union_Bottom_left:
  assumes "str (Bottom self) = py ''Nothing''" "str C \<noteq> py ''Nothing'' \<or> C = Bottom self"
  shows "union_c len_c self (Bottom self) C = (C, self)"
proof -
  obtain A' B' where s: "concepts_sorter len_c (Bottom self) C = (A', B')"
    by (cases "concepts_sorter len_c (Bottom self) C")
  from sorter_pair[OF s] assms show ?thesis
    by (auto simp: union_c_def s)
qed

lemma intersection_with_Nothing:
  assumes inv: "cache_inv self" and n: "str A = py ''Nothing'' \<or> str B = py ''Nothing''"
  shows "fst (intersection len_c self A B) = Bottom self"
proof -
  obtain A' B' where s: "concepts_sorter len_c A B = (A', B')"
    by (cases "concepts_sorter len_c A B")
  from sorter_pair[OF s] n have n': "str A' = py ''Nothing'' \<or> str B' = py ''Nothing''"
    by auto
  show ?thesis
  proof (cases "log_of_intersections self (A', B')")
    case None
    with n' show ?thesis by (auto simp: intersection_def s)
  next
    case (Some r)
    with inv n' have "r = Bottom self"
      unfolding cache_inv_def by (metis (full_types))
    with Some show ?thesis by (simp add: intersection_def s)
  qed
qed

text \<open>
  The half of claim C6 the code meets: in every reachable state of a generator whose bottom
  concept carries the string \<^verbatim>\<open>Nothing\<close>, the intersection of any concept with
  \<open>Bottom\<close>, in either order, returns the canonical \<open>Bottom\<close>.
\<close>

lemma intersection_with_Bottom:
  assumes "reachable len_c self" and "str (Bottom self) = py ''Nothing''"
  shows "fst (intersection len_c self C (Bottom self)) = Bottom self
     \<and> fst (intersection len_c self (Bottom self) C) = Bottom self"
proof -
  have inv: "cache_inv self" using assms(1) by (rule reachable_cache_inv)
  show ?thesis
    using intersection_with_Nothing[OF inv] assms(2) by blast
qed

text \<open>
  Claim C6 says that for every concept \<open>C\<close> the union of \<open>C\<close> with the bottom concept
  returns \<open>C\<close>, the other operand unchanged, and the intersection returns the canonical
  \<open>Bottom\<close>. The union half fails, because the shortcut compares the operand's string with
  \<^verbatim>\<open>'Nothing'\<close> instead of comparing the operand with the bottom concept. \<open>ex_N\<close> is a
  class named \<^verbatim>\<open>Nothing\<close> in another namespace, an object other than \<open>Bottom\<close>; the two
  tie on both sorting keys, so \<^verbatim>\<open>union(N, Bottom)\<close> keeps the order of the call, finds
  \<^verbatim>\<open>A.str == 'Nothing'\<close> and returns \<^verbatim>\<open>B\<close>, which is \<open>Bottom\<close> and not the operand
  \<open>ex_N\<close>. In the other order the same call returns \<open>ex_N\<close>.
\<close>

theorem union_of_second_Nothing_with_Bottom:
  "fst (union_c ex_len ex_gen ex_N (Bottom ex_gen)) = Bottom ex_gen
   \<and> ex_N \<noteq> Bottom ex_gen
   \<and> str (Bottom ex_gen) = py ''Nothing''
   \<and> fst (union_c ex_len ex_gen (Bottom ex_gen) ex_N) = ex_N
   \<and> fst (intersection ex_len ex_gen ex_N (Bottom ex_gen)) = Bottom ex_gen"
  by (simp add: run_defs)

section \<open>Construction of a learner\<close>

text \<open>
  Claim C7 as stated fails for four of the five collaborators: a learner constructed with
  a knowledge base and nothing else is constructed, with the default refinement operator,
  quality function, heuristic and search tree, and \<^verbatim>\<open>kb.thing\<close> as root concept.
\<close>

theorem learner_defaults_fill_missing:
  "BaseConceptLearner_init ex_defaults (Some ex_kb) None None None None True 10 10 True
       None None None
     = Inr \<lparr>kb = ex_kb, heuristic = ex_object ''CELOEHeuristic'',
            quality_func = ex_object ''F1'', rho = ex_object ''ModifiedCELOERefinement'',
            search_tree = ex_object ''CELOESearchTree'',
            max_num_of_concepts_tested = None, concepts_to_ignore = {},
            start_class = ex_object ''Thing'', iter_bound = 10, terminate_on_goal = True,
            verbose = True\<rparr>"
  by (simp add: BaseConceptLearner_init_def ex_defaults_def ex_kb_def ex_object_def)

text \<open>
  Claim C7, amended. Constructing a learner fails fast with an assertion error, at
  construction time and before any search starts, whenever a required collaborator is
  missing or falsy once the defaults are in place: the knowledge base is \<^verbatim>\<open>None\<close> or
  falsy; or no root concept is given and \<^verbatim>\<open>kb.thing\<close> is \<^verbatim>\<open>None\<close>, or the root
  concept in place is falsy; or the quality function, the heuristic or the refinement
  operator in place is falsy. A missing refinement operator, quality function, heuristic,
  search tree or root concept is by itself no failure: it is replaced by
  \<^verbatim>\<open>ModifiedCELOERefinement\<close> over the knowledge base, \<^verbatim>\<open>F1\<close>,
  \<^verbatim>\<open>CELOEHeuristic\<close>, \<^verbatim>\<open>CELOESearchTree\<close> over the quality function and heuristic in
  place, and \<^verbatim>\<open>kb.thing\<close>, and in every other case construction succeeds with exactly
  these collaborators.
\<close>

theorem learner_construction:
  "((knowledge_base = None \<or> (\<exists>k'. knowledge_base = Some k' \<and> \<not> truthy k')) \<longrightarrow>
      BaseConceptLearner_init d knowledge_base refinement_operator qf heuristic_func
        st tg ib mcl vb mn ig root_concept = Inl AssertionError)
   \<and> (let rho1 = (case refinement_operator of
                      None \<Rightarrow> ModifiedCELOERefinement d k mcl | Some r \<Rightarrow> r);
            heuristic1 = (case heuristic_func of None \<Rightarrow> CELOEHeuristic d | Some h \<Rightarrow> h);
            quality1 = (case qf of None \<Rightarrow> F1 d | Some q \<Rightarrow> q);
            tree1 = (case st of None \<Rightarrow> CELOESearchTree d quality1 heuristic1 | Some t \<Rightarrow> t);
            start1 = (case root_concept of None \<Rightarrow> thing k | Some c \<Rightarrow> Some c)
        in ((truthy k
              \<and> (start1 = None \<or> (\<exists>sc'. start1 = Some sc' \<and> \<not> truthy sc')
                   \<or> \<not> truthy quality1 \<or> \<not> truthy heuristic1 \<or> \<not> truthy rho1)) \<longrightarrow>
              BaseConceptLearner_init d (Some k) refinement_operator qf heuristic_func
                st tg ib mcl vb mn ig root_concept = Inl AssertionError)
          \<and> ((truthy k \<and> start1 = Some sc \<and> truthy sc \<and> truthy quality1
                \<and> truthy heuristic1 \<and> truthy rho1) \<longrightarrow>
              (\<exists>l. BaseConceptLearner_init d (Some k) refinement_operator qf heuristic_func
                      st tg ib mcl vb mn ig root_concept = Inr l
                   \<and> kb l = k \<and> rho l = rho1 \<and> heuristic l = heuristic1
                   \<and> quality_func l = quality1 \<and> search_tree l = tree1
                   \<and> start_class l = sc)))"
proof -
  have missing: "BaseConceptLearner_init d knowledge_base refinement_operator qf
      heuristic_func st tg ib mcl vb mn ig root_concept = Inl AssertionError"
    if "knowledge_base = None \<or> (\<exists>k'. knowledge_base = Some k' \<and> \<not> truthy k')"
    using that by (auto simp: BaseConceptLearner_init_def)
  have rest: "let rho1 = (case refinement_operator of
                      None \<Rightarrow> ModifiedCELOERefinement d k mcl | Some r \<Rightarrow> r);
            heuristic1 = (case heuristic_func of None \<Rightarrow> CELOEHeuristic d | Some h \<Rightarrow> h);
            quality1 = (case qf of None \<Rightarrow> F1 d | Some q \<Rightarrow> q);
            tree1 = (case st of None \<Rightarrow> CELOESearchTree d quality1 heuristic1 | Some t \<Rightarrow> t);
            start1 = (case root_concept of None \<Rightarrow> thing k | Some c \<Rightarrow> Some c)
        in ((truthy k
              \<and> (start1 = None \<or> (\<exists>sc'. start1 = Some sc' \<and> \<not> truthy sc')
                   \<or> \<not> truthy quality1 \<or> \<not> truthy heuristic1 \<or> \<not> truthy rho1)) \<longrightarrow>
              BaseConceptLearner_init d (Some k) refinement_operator qf heuristic_func
                st tg ib mcl vb mn ig root_concept = Inl AssertionError)
          \<and> ((truthy k \<and> start1 = Some sc \<and> truthy sc \<and> truthy quality1
                \<and> truthy heuristic1 \<and> truthy rho1) \<longrightarrow>
              (\<exists>l. BaseConceptLearner_init d (Some k) refinement_operator qf heuristic_func
                      st tg ib mcl vb mn ig root_concept = Inr l
                   \<and> kb l = k \<and> rho l = rho1 \<and> heuristic l = heuristic1
                   \<and> quality_func l = quality1 \<and> search_tree l = tree1
                   \<and> start_class l = sc))"
    unfolding Let_def
  proof (intro conjI impI)
    assume "truthy k \<and>
      ((case root_concept of None \<Rightarrow> thing k | Some c \<Rightarrow> Some c) = None
       \<or> (\<exists>sc'. (case root_concept of None \<Rightarrow> thing k | Some c \<Rightarrow> Some c) = Some sc'
                \<and> \<not> truthy sc')
       \<or> \<not> truthy (case qf of None \<Rightarrow> F1 d | Some q \<Rightarrow> q)
       \<or> \<not> truthy (case heuristic_func of None \<Rightarrow> CELOEHeuristic d | Some h \<Rightarrow> h)
       \<or> \<not> truthy (case refinement_operator of
                       None \<Rightarrow> ModifiedCELOERefinement d k mcl | Some r \<Rightarrow> r))"
    then show "BaseConceptLearner_init d (Some k) refinement_operator qf heuristic_func
                st tg ib mcl vb mn ig root_concept = Inl AssertionError"
      by (auto simp: BaseConceptLearner_init_def Let_def split: option.splits)
  next
    assume "truthy k \<and> (case root_concept of None \<Rightarrow> thing k | Some c \<Rightarrow> Some c) = Some sc
      \<and> truthy sc \<and> truthy (case qf of None \<Rightarrow> F1 d | Some q \<Rightarrow> q)
      \<and> truthy (case heuristic_func of None \<Rightarrow> CELOEHeuristic d | Some h \<Rightarrow> h)
      \<and> truthy (case refinement_operator of
                    None \<Rightarrow> ModifiedCELOERefinement d k mcl | Some r \<Rightarrow> r)"
    then show "\<exists>l. BaseConceptLearner_init d (Some k) refinement_operator qf heuristic_func
                      st tg ib mcl vb mn ig root_concept = Inr l
         \<and> kb l = k
         \<and> rho l = (case refinement_operator of
                      None \<Rightarrow> ModifiedCELOERefinement d k mcl | Some r \<Rightarrow> r)
         \<and> heuristic l = (case heuristic_func of None \<Rightarrow> CELOEHeuristic d | Some h \<Rightarrow> h)
         \<and> quality_func l = (case qf of None \<Rightarrow> F1 d | Some q \<Rightarrow> q)
         \<and> search_tree l =
             (case st of
                None \<Rightarrow> CELOESearchTree d (case qf of None \<Rightarrow> F1 d | Some q \<Rightarrow> q)
                         (case heuristic_func of None \<Rightarrow> CELOEHeuristic d | Some h \<Rightarrow> h)
              | Some t \<Rightarrow> t)
         \<and> start_class l = sc"
      by (simp add: BaseConceptLearner_init_def Let_def)
  qed
  from missing rest show ?thesis by blast
qed

text \<open>
  Three constructions: without a knowledge base; with a knowledge base whose \<^verbatim>\<open>thing\<close>
  is \<^verbatim>\<open>None\<close> and no root concept; with a knowledge base only.
\<close>

theorem learner_construction_witness:
  "BaseConceptLearner_init ex_defaults None None None None None True 10 10 True None None None
      = Inl AssertionError
   \<and> truthy ex_kb_without_thing \<and> thing ex_kb_without_thing = None
   \<and> BaseConceptLearner_init ex_defaults (Some ex_kb_without_thing) None None None None
        True 10 10 True None None None = Inl AssertionError
   \<and> truthy ex_kb \<and> thing ex_kb = Some (ex_object ''Thing'')
   \<and> (\<exists>l. BaseConceptLearner_init ex_defaults (Some ex_kb) None None None None True 10 10 True
            None None None = Inr l
         \<and> kb l = ex_kb
         \<and> rho l = ModifiedCELOERefinement ex_defaults ex_kb 10
         \<and> heuristic l = CELOEHeuristic ex_defaults
         \<and> quality_func l = F1 ex_defaults
         \<and> search_tree l = CELOESearchTree ex_defaults (F1 ex_defaults) (CELOEHeuristic ex_defaults)
         \<and> start_class l = ex_object ''Thing'')"
proof -
  have pre: "truthy ex_kb" "truthy (ModifiedCELOERefinement ex_defaults ex_kb 10)"
    "truthy (CELOEHeuristic ex_defaults)" "truthy (F1 ex_defaults)"
    "thing ex_kb = Some (ex_object ''Thing'')" "truthy (ex_object ''Thing'')"
    "truthy ex_kb_without_thing" "thing ex_kb_without_thing = None"
    by (simp_all add: ex_defaults_def ex_kb_def ex_kb_without_thing_def ex_object_def)
  note inst = learner_construction[where knowledge_base = None and d = ex_defaults
        and mcl = 10 and sc = "ex_object ''Thing''" and refinement_operator = None
        and qf = None and heuristic_func = None and st = None
        and tg = True and ib = 10 and vb = True and mn = None and ig = None
        and root_concept = None]
  show ?thesis
    using inst[where k = ex_kb] inst[where k = ex_kb_without_thing] pre
    by (simp add: Let_def)
qed

section \<open>F1 score\<close>

text \<open>
  The rounding is within half a unit in the last place: \<open>binade\<close> is the exponent of its
  argument, and \<open>round64\<close> moves a number by at most the fraction \<open>unit_roundoff\<close> of it.
\<close>

lemma round_half_even_error: "\<bar>of_int (round_half_even m) - m\<bar> \<le> 1 / 2"
proof -
  have "of_int \<lfloor>m\<rfloor> \<le> m" "m < of_int \<lfloor>m\<rfloor> + 1" by linarith+
  then show ?thesis
    by (auto simp: round_half_even_def Let_def abs_le_iff)
qed

lemma binade_le:
  assumes "0 < x"
  shows "2 powi (binade x) \<le> x"
proof -
  obtain a b where ab: "quotient_of x = (a, b)" by (cases "quotient_of x")
  then have b: "0 < b" by (rule quotient_of_denom_pos)
  have x: "x = of_int a / of_int b" using ab by (rule quotient_of_div)
  with assms b have a: "0 < a" by (simp add: zero_less_divide_iff)
  let ?e0 = "bitlen a - bitlen b"
  show ?thesis
  proof (cases "2 powi ?e0 \<le> x")
    case True
    then show ?thesis by (simp add: binade_def ab)
  next
    case False
    have la: "(2::rat) powi (bitlen a - 1) \<le> of_int a"
    proof -
      have "(2::int) ^ nat (bitlen a - 1) \<le> a" using bitlen_bounds[OF a] by simp
      then have "(of_int ((2::int) ^ nat (bitlen a - 1)) :: rat) \<le> of_int a"
        by (simp only: of_int_le_iff)
      moreover have "0 \<le> bitlen a - 1"
        using compute_bitlen[of a] bitlen_nonneg[of "a div 2"] a by simp
      ultimately show ?thesis by (simp add: power_int_def)
    qed
    have ub: "of_int b \<le> (2::rat) powi (bitlen b)"
    proof -
      have "b < (2::int) ^ nat (bitlen b)" using bitlen_bounds[OF b] by simp
      then have "(of_int b :: rat) < of_int ((2::int) ^ nat (bitlen b))"
        by (simp only: of_int_less_iff)
      then show ?thesis using bitlen_nonneg[of b] by (simp add: power_int_def)
    qed
    have "(2::rat) powi (?e0 - 1) = 2 powi (bitlen a - 1) / 2 powi (bitlen b)"
      using power_int_diff[of "2::rat" "bitlen a - 1" "bitlen b"] by (simp add: algebra_simps)
    also have "\<dots> \<le> of_int a / of_int b"
      using la ub b a by (intro frac_le) auto
    finally have low: "(2::rat) powi (?e0 - 1) \<le> x" by (simp add: x)
    have "binade x = ?e0 - 1" using False by (simp add: binade_def ab)
    with low show ?thesis by simp
  qed
qed

lemma binade_gt:
  assumes "0 < x"
  shows "x < 2 powi (binade x + 1)"
proof -
  obtain a b where ab: "quotient_of x = (a, b)" by (cases "quotient_of x")
  then have b: "0 < b" by (rule quotient_of_denom_pos)
  have x: "x = of_int a / of_int b" using ab by (rule quotient_of_div)
  with assms b have a: "0 < a" by (simp add: zero_less_divide_iff)
  let ?e0 = "bitlen a - bitlen b"
  show ?thesis
  proof (cases "2 powi ?e0 \<le> x")
    case False
    then have "binade x = ?e0 - 1" by (simp add: binade_def ab)
    with False show ?thesis by simp
  next
    case True
    have ua: "of_int a < (2::rat) powi (bitlen a)"
    proof -
      have "a < (2::int) ^ nat (bitlen a)" using bitlen_bounds[OF a] by simp
      then have "(of_int a :: rat) < of_int ((2::int) ^ nat (bitlen a))"
        by (simp only: of_int_less_iff)
      then show ?thesis using bitlen_nonneg[of a] by (simp add: power_int_def)
    qed
    have lb: "(2::rat) powi (bitlen b - 1) \<le> of_int b"
    proof -
      have "(2::int) ^ nat (bitlen b - 1) \<le> b" using bitlen_bounds[OF b] by simp
      then have "(of_int ((2::int) ^ nat (bitlen b - 1)) :: rat) \<le> of_int b"
        by (simp only: of_int_le_iff)
      moreover have "0 \<le> bitlen b - 1"
        using compute_bitlen[of b] bitlen_nonneg[of "b div 2"] b by simp
      ultimately show ?thesis by (simp add: power_int_def)
    qed
    have "of_int a / of_int b < (2::rat) powi (bitlen a) / 2 powi (bitlen b - 1)"
      using ua lb b a by (intro frac_less) auto
    also have "\<dots> = 2 powi (?e0 + 1)"
      using power_int_diff[of "2::rat" "bitlen a" "bitlen b - 1"] by (simp add: algebra_simps)
    finally have "x < 2 powi (?e0 + 1)" by (simp add: x)
    moreover have "binade x = ?e0" using True by (simp add: binade_def ab)
    ultimately show ?thesis by simp
  qed
qed

lemma round64_error: "\<bar>round64 x - x\<bar> \<le> \<bar>x\<bar> / 2 ^ 53"
proof (cases "x = 0")
  case True
  then show ?thesis by (simp add: round64_def)
next
  case False
  define e where "e = binade \<bar>x\<bar>"
  define q where "q = (2::rat) powi (e - 52)"
  define m where "m = \<bar>x\<bar> / q"
  define n where "n = round_half_even m"
  have qpos: "0 < q" by (simp add: q_def)
  have q_eq: "q = 2 powi e / 2 ^ 52"
    unfolding q_def using power_int_diff[of "2::rat" e 52] by simp
  have le: "2 powi e \<le> \<bar>x\<bar>" unfolding e_def using False by (intro binade_le) simp
  have r: "round64 x = sgn x * of_int n * q"
    using False by (simp add: round64_def Let_def e_def q_def m_def n_def)
  have x: "x = sgn x * m * q" using qpos by (simp add: m_def sgn_mult_abs)
  have "round64 x - x = sgn x * (of_int n - m) * q"
    by (subst r, subst (2) x) (simp add: algebra_simps)
  then have "\<bar>round64 x - x\<bar> = \<bar>of_int n - m\<bar> * q"
    using False qpos by (simp add: abs_mult abs_sgn_eq)
  also have "\<dots> \<le> (1 / 2) * q"
    using round_half_even_error[of m] qpos unfolding n_def by (intro mult_right_mono) auto
  also have "\<dots> = 2 powi e / 2 ^ 53" by (simp add: q_eq)
  also have "\<dots> \<le> \<bar>x\<bar> / 2 ^ 53" using le by (simp add: divide_right_mono)
  finally show ?thesis .
qed

text \<open>
  In exact arithmetic twice the product of precision and recall over their sum is the closed
  form.
\<close>

lemma harmonic_mean_closed:
  fixes t a b :: rat
  assumes "0 < t" "0 \<le> a" "0 \<le> b"
  shows "2 * ((t / (t + a) * (t / (t + b))) / (t / (t + a) + t / (t + b)))
           = t / (t + (a + b) / 2)"
proof -
  have pa: "0 < t + a" and pb: "0 < t + b" and ps: "0 < 2 * t + a + b"
    using assms by linarith+
  define D where "D = (t + a) * (t + b)"
  define S where "S = 2 * t + a + b"
  have D: "0 < D" and S: "0 < S" using pa pb ps by (simp_all add: D_def S_def)
  have sum: "t / (t + a) + t / (t + b) = t * S / D"
    using pa pb by (simp add: D_def S_def field_simps)
  have prod: "t / (t + a) * (t / (t + b)) = t * t / D"
    by (simp add: D_def)
  have "(t * t / D) / (t * S / D) = t / S"
    using D S assms(1) by (simp add: field_simps)
  then have "(t / (t + a) * (t / (t + b))) / (t / (t + a) + t / (t + b)) = t / (2 * t + a + b)"
    unfolding sum prod by (simp add: S_def)
  moreover have "t / (t + (a + b) / 2) = 2 * (t / (2 * t + a + b))"
    using ps by (simp add: field_simps)
  ultimately show ?thesis by simp
qed

lemma f1_exact:
  "compute_f1_score_with (\<lambda>x. x) individuals pos neg
     = Inr (f1_closed_form (int (card (pos \<inter> individuals))) (int (card (neg \<inter> individuals)))
              (int (card (pos - individuals))))"
proof (cases "card (pos \<inter> individuals) = 0")
  case True
  then show ?thesis
    by (simp add: compute_f1_score_with_def f1_closed_form_def Let_def)
next
  case False
  define t a b :: rat where "t = of_nat (card (pos \<inter> individuals))"
    and "a = of_nat (card (neg \<inter> individuals))" and "b = of_nat (card (pos - individuals))"
  have t: "0 < t" and a: "0 \<le> a" and b: "0 \<le> b" using False by (simp_all add: t_def a_def b_def)
  have pa: "0 < t + a" and pb: "0 < t + b" using t a b by linarith+
  have nz: "t / (t + a) + t / (t + b) \<noteq> 0"
    using t pa pb by (simp add: add_pos_pos less_imp_neq[symmetric])
  have "compute_f1_score_with (\<lambda>x. x) individuals pos neg
      = Inr (2 * ((t / (t + a) * (t / (t + b))) / (t / (t + a) + t / (t + b))))"
    using False t pa pb nz
    by (simp add: compute_f1_score_with_def Let_def t_def a_def b_def mult.commute)
  also have "\<dots> = Inr (t / (t + (a + b) / 2))"
    by (simp only: harmonic_mean_closed[OF t a b])
  finally show ?thesis using False
    by (simp add: f1_closed_form_def t_def a_def b_def)
qed

lemma round64_model: "\<bar>round64 x - x\<bar> \<le> unit_roundoff * \<bar>x\<bar>"
  using round64_error[of x] by (simp add: unit_roundoff_def)

lemma unit_roundoff_range: "0 < unit_roundoff" "unit_roundoff < 1"
  by (simp_all add: unit_roundoff_def)

lemma fl_step:
  assumes model: "\<And>x. \<bar>fl x - x\<bar> \<le> unit_roundoff * \<bar>x\<bar>"
    and y: "0 < y" and L: "0 < L" and lo: "y * L \<le> x" and hi: "x \<le> y * U"
  shows "y * (L * (1 - unit_roundoff)) \<le> fl x" "fl x \<le> y * (U * (1 + unit_roundoff))"
proof -
  have x: "0 < x" using y L lo by (meson less_le_trans mult_pos_pos)
  from model[of x] x have b: "x - unit_roundoff * x \<le> fl x" "fl x \<le> x + unit_roundoff * x"
    by (simp_all add: abs_le_iff)
  have "y * (L * (1 - unit_roundoff)) = (y * L) * (1 - unit_roundoff)" by simp
  also have "\<dots> \<le> x * (1 - unit_roundoff)"
    using lo unit_roundoff_range by (intro mult_right_mono) simp_all
  also have "\<dots> \<le> fl x" using b(1) by (simp add: algebra_simps)
  finally show "y * (L * (1 - unit_roundoff)) \<le> fl x" .
  have "fl x \<le> x * (1 + unit_roundoff)" using b(2) by (simp add: algebra_simps)
  also have "\<dots> \<le> (y * U) * (1 + unit_roundoff)"
    using hi unit_roundoff_range by (intro mult_right_mono) simp_all
  finally show "fl x \<le> y * (U * (1 + unit_roundoff))" by (simp add: mult.assoc)
qed

lemma roundoff_upper:
  "(1 + unit_roundoff) ^ 5 / (1 - unit_roundoff) ^ 2 \<le> 1 + 1 / 2 ^ 50"
  by (simp add: unit_roundoff_def field_simps)

lemma roundoff_lower:
  "1 - 1 / 2 ^ 50 \<le> (1 - unit_roundoff) ^ 5 / (1 + unit_roundoff) ^ 2"
  by (simp add: unit_roundoff_def field_simps)

text \<open>
  Every operation of the last line of \<^verbatim>\<open>compute_f1_score\<close> multiplies the error so far
  by a factor between \<open>1 - unit_roundoff\<close> and \<open>1 + unit_roundoff\<close>; seven such factors
  stay within one part in \<^verbatim>\<open>2^50\<close>. No intermediate value is zero, so neither the test
  on precision and recall nor the last division goes another way than in exact arithmetic.
\<close>

lemma rounded_harmonic_mean:
  fixes p r :: rat
  assumes model: "\<And>x. \<bar>fl x - x\<bar> \<le> unit_roundoff * \<bar>x\<bar>"
    and p: "0 < p" and r: "0 < r"
  defines "c \<equiv> 2 * (p * r / (p + r))"
  shows "fl p \<noteq> 0" "fl r \<noteq> 0" "fl (fl p + fl r) \<noteq> 0"
    and "\<bar>fl (2 * fl (fl (fl p * fl r) / fl (fl p + fl r))) - c\<bar> \<le> c / 2 ^ 50"
proof -
  define a b where "a = 1 - unit_roundoff" and "b = 1 + unit_roundoff"
  have a: "0 < a" and b: "0 < b" using unit_roundoff_range by (simp_all add: a_def b_def)
  note step = fl_step[OF model, folded a_def b_def]
  have P: "p * (1 * a) \<le> fl p" "fl p \<le> p * (1 * b)"
    using step[of p 1 p 1] p by simp_all
  have R: "r * (1 * a) \<le> fl r" "fl r \<le> r * (1 * b)"
    using step[of r 1 r 1] r by simp_all
  have Ppos: "0 < fl p" using P(1) p a by (meson less_le_trans mult_pos_pos zero_less_one)
  have Rpos: "0 < fl r" using R(1) r a by (meson less_le_trans mult_pos_pos zero_less_one)
  show "fl p \<noteq> 0" "fl r \<noteq> 0" using Ppos Rpos by simp_all
  have pr: "0 < p * r" and s: "0 < p + r" using p r by simp_all
  have PR: "(p * r) * (a * a) \<le> fl p * fl r" "fl p * fl r \<le> (p * r) * (b * b)"
  proof -
    have "(p * a) * (r * a) \<le> fl p * fl r"
      using P(1) R(1) Ppos Rpos p r a by (intro mult_mono) simp_all
    then show "(p * r) * (a * a) \<le> fl p * fl r" by (simp add: mult_ac)
    have "fl p * fl r \<le> (p * b) * (r * b)"
      using P(2) R(2) Ppos Rpos p r b by (intro mult_mono) simp_all
    then show "fl p * fl r \<le> (p * r) * (b * b)" by (simp add: mult_ac)
  qed
  have PRh: "(p * r) * (a * a * a) \<le> fl (fl p * fl r)" "fl (fl p * fl r) \<le> (p * r) * (b * b * b)"
    using step[OF pr _ PR] a by simp_all
  have S: "(p + r) * a \<le> fl p + fl r" "fl p + fl r \<le> (p + r) * b"
    using P R by (simp_all add: algebra_simps)
  have Sh: "(p + r) * (a * a) \<le> fl (fl p + fl r)" "fl (fl p + fl r) \<le> (p + r) * (b * b)"
    using step[OF s a S] by simp_all
  have Shpos: "0 < fl (fl p + fl r)"
    using Sh(1) s a by (meson less_le_trans mult_pos_pos)
  then show "fl (fl p + fl r) \<noteq> 0" by simp
  have PRhpos: "0 < fl (fl p * fl r)"
    using PRh(1) pr a by (meson less_le_trans mult_pos_pos)
  define q where "q = p * r / (p + r)"
  have q: "0 < q" using pr s by (simp add: q_def)
  have Q: "q * (a * a * a / (b * b)) \<le> fl (fl p * fl r) / fl (fl p + fl r)"
    "fl (fl p * fl r) / fl (fl p + fl r) \<le> q * (b * b * b / (a * a))"
  proof -
    have "(p * r) * (a * a * a) / ((p + r) * (b * b)) \<le> fl (fl p * fl r) / fl (fl p + fl r)"
      by (rule frac_le[OF less_imp_le[OF PRhpos] PRh(1) Shpos Sh(2)])
    then show "q * (a * a * a / (b * b)) \<le> fl (fl p * fl r) / fl (fl p + fl r)"
      by (simp add: q_def)
    have d0: "0 < (p + r) * (a * a)" using s a by simp
    have n0: "0 \<le> (p * r) * (b * b * b)" using pr b by simp
    have "fl (fl p * fl r) / fl (fl p + fl r) \<le> (p * r) * (b * b * b) / ((p + r) * (a * a))"
      by (rule frac_le[OF n0 PRh(2) d0 Sh(1)])
    then show "fl (fl p * fl r) / fl (fl p + fl r) \<le> q * (b * b * b / (a * a))"
      by (simp add: q_def)
  qed
  have La: "0 < a * a * a / (b * b)" using a b by simp
  have Qh: "q * (a * a * a / (b * b) * a) \<le> fl (fl (fl p * fl r) / fl (fl p + fl r))"
    "fl (fl (fl p * fl r) / fl (fl p + fl r)) \<le> q * (b * b * b / (a * a) * b)"
    using step[OF q La Q] by simp_all
  have c: "0 < c" "c = 2 * q" using q by (simp_all add: c_def q_def)
  have T: "c * (a * a * a / (b * b) * a) \<le> 2 * fl (fl (fl p * fl r) / fl (fl p + fl r))"
    "2 * fl (fl (fl p * fl r) / fl (fl p + fl r)) \<le> c * (b * b * b / (a * a) * b)"
    using Qh by (simp_all add: c(2))
  have Lb: "0 < a * a * a / (b * b) * a" using a b by simp
  have res: "c * (a * a * a / (b * b) * a * a)
        \<le> fl (2 * fl (fl (fl p * fl r) / fl (fl p + fl r)))"
    "fl (2 * fl (fl (fl p * fl r) / fl (fl p + fl r))) \<le> c * (b * b * b / (a * a) * b * b)"
    using step[OF c(1) Lb T] by simp_all
  have lo: "1 - 1 / 2 ^ 50 \<le> a * a * a / (b * b) * a * a"
    using roundoff_lower by (simp add: a_def b_def power_def mult_ac)
  have hi: "b * b * b / (a * a) * b * b \<le> 1 + 1 / 2 ^ 50"
    using roundoff_upper by (simp add: a_def b_def power_def mult_ac)
  define eps where "eps = c / 2 ^ 50"
  have e1: "c * (1 - 1 / 2 ^ 50) = c - eps" and e2: "c * (1 + 1 / 2 ^ 50) = c + eps"
    by (simp_all add: eps_def algebra_simps)
  have "c - eps \<le> fl (2 * fl (fl (fl p * fl r) / fl (fl p + fl r)))"
    using mult_left_mono[OF lo, of c] c(1) res(1) unfolding e1 by linarith
  moreover have "fl (2 * fl (fl (fl p * fl r) / fl (fl p + fl r))) \<le> c + eps"
    using mult_left_mono[OF hi, of c] c(1) res(2) unfolding e2 by linarith
  ultimately have "\<bar>fl (2 * fl (fl (fl p * fl r) / fl (fl p + fl r))) - c\<bar> \<le> eps"
    by (simp add: abs_le_iff) 
  then show "\<bar>fl (2 * fl (fl (fl p * fl r) / fl (fl p + fl r))) - c\<bar> \<le> c / 2 ^ 50"
    by (simp only: eps_def)
qed

lemma f1_counts_closed:
  fixes tp fp fn :: int
  assumes "0 < tp" "0 \<le> fp" "0 \<le> fn"
  shows "2 * ((of_int tp / of_int (tp + fp)) * (of_int tp / of_int (tp + fn))
              / (of_int tp / of_int (tp + fp) + of_int tp / of_int (tp + fn)))
           = f1_closed_form tp fp fn"
  using harmonic_mean_closed[of "of_int tp" "of_int fp" "of_int fn"] assms
  by (simp add: f1_closed_form_def)

lemma f1_with_rounding:
  assumes model: "\<And>x. \<bar>fl x - x\<bar> \<le> unit_roundoff * \<bar>x\<bar>"
  shows "\<exists>v. compute_f1_score_with fl individuals pos neg = Inr v
    \<and> \<bar>v - f1_closed_form (int (card (pos \<inter> individuals)))
              (int (card (neg \<inter> individuals))) (int (card (pos - individuals)))\<bar>
        \<le> f1_closed_form (int (card (pos \<inter> individuals)))
              (int (card (neg \<inter> individuals))) (int (card (pos - individuals))) / 2 ^ 50"
proof -
  define tp fp fn where "tp = int (card (pos \<inter> individuals))"
    and "fp = int (card (neg \<inter> individuals))" and "fn = int (card (pos - individuals))"
  have nn: "0 \<le> tp" "0 \<le> fp" "0 \<le> fn" by (simp_all add: tp_def fp_def fn_def)
  have fl0: "fl 0 = 0" using model[of 0] by simp
  show ?thesis
  proof (cases "tp = 0")
    case True
    then have "compute_f1_score_with fl individuals pos neg = Inr 0"
      by (simp add: compute_f1_score_with_def Let_def fl0 flip: tp_def)
    with True show ?thesis by (simp add: f1_closed_form_def flip: tp_def)
  next
    case False
    with nn have tp: "0 < tp" by simp
    define p r :: rat where "p = of_int tp / of_int (tp + fp)"
      and "r = of_int tp / of_int (tp + fn)"
    have p: "0 < p" and r: "0 < r" using tp nn by (simp_all add: p_def r_def)
    note rh = rounded_harmonic_mean[OF model p r]
    have c: "2 * (p * r / (p + r)) = f1_closed_form tp fp fn"
      using f1_counts_closed[OF tp nn(2) nn(3)] by (simp add: p_def r_def)
    have nz: "tp + fn \<noteq> 0" "tp + fp \<noteq> 0" using tp nn by simp_all
    have "compute_f1_score_with fl individuals pos neg
        = Inr (fl (2 * fl (fl (fl p * fl r) / fl (fl p + fl r))))"
      using nz rh(1-3)
      by (simp add: compute_f1_score_with_def Let_def p_def r_def flip: tp_def fp_def fn_def)
    with rh(4) show ?thesis
      unfolding c by (simp flip: tp_def fp_def fn_def)
  qed
qed

lemma identity_rounding_model:
  "\<bar>(\<lambda>x::rat. x) x - x\<bar> \<le> unit_roundoff * \<bar>x\<bar>"
  using unit_roundoff_range by simp

text \<open>
  A run of the function, one rounded operation after the other.
\<close>

lemma f1_by_steps:
  assumes "int (card (pos \<inter> individuals)) = tp" "int (card (neg \<inter> individuals)) = fp"
    and "int (card (pos - individuals)) = fn"
    and "tp + fn \<noteq> 0" "tp + fp \<noteq> 0"
    and "fl (of_int tp / of_int (tp + fn)) = recall" "recall \<noteq> 0"
    and "fl (of_int tp / of_int (tp + fp)) = precision" "precision \<noteq> 0"
    and "fl (precision * recall) = product" "fl (precision + recall) = psum" "psum \<noteq> 0"
    and "fl (product / psum) = ratio" "fl (2 * ratio) = v"
  shows "compute_f1_score_with fl individuals pos neg = Inr v"
  using assms by (simp add: compute_f1_score_with_def Let_def)

text \<open>
  Claim C9 as stated fails in the arithmetic the function runs in. With one true positive,
  no false positive and four false negatives the closed form is one third. The function
  rounds recall to the double nearest to 0.2, adds it to 1, divides and doubles, rounding
  after each step, and returns 0.33333333333333337; the double nearest to one third, which
  is also what the closed form gives when it is evaluated in doubles, is
  0.3333333333333333, one unit in the last place below.
\<close>

theorem f1_score_differs_in_last_place:
  "compute_f1_score {0 :: nat} {0, 1, 2, 3, 4} {}
      = Inr (3002399751580331 / 9007199254740992)
   \<and> f1_closed_form 1 0 4 = 1 / 3
   \<and> round64 (f1_closed_form 1 0 4) = 6004799503160661 / 18014398509481984
   \<and> (3002399751580331 / 9007199254740992 :: rat) \<noteq> 1 / 3
   \<and> (3002399751580331 / 9007199254740992 :: rat) \<noteq> 6004799503160661 / 18014398509481984"
proof -
  have tp: "int (card ({0, 1, 2, 3, 4} \<inter> {0 :: nat})) = 1"
    and fp: "int (card ({} \<inter> {0 :: nat})) = 0"
    and fn: "int (card ({0, 1, 2, 3, 4} - {0 :: nat})) = 4"
    by simp_all
  have recall: "round64 (of_int 1 / of_int (1 + 4)) = 3602879701896397 / 18014398509481984"
    by code_simp
  have precision: "round64 (of_int 1 / of_int (1 + 0)) = 1"
    by code_simp
  have prod: "round64 (1 * (3602879701896397 / 18014398509481984))
      = 3602879701896397 / 18014398509481984"
    by code_simp
  have total: "round64 (1 + 3602879701896397 / 18014398509481984)
      = 5404319552844595 / 4503599627370496"
    by code_simp
  have quot: "round64 (3602879701896397 / 18014398509481984
                 / (5404319552844595 / 4503599627370496))
      = 3002399751580331 / 18014398509481984"
    by code_simp
  have dbl: "round64 (2 * (3002399751580331 / 18014398509481984))
      = 3002399751580331 / 9007199254740992"
    by code_simp
  have run: "compute_f1_score {0 :: nat} {0, 1, 2, 3, 4} {}
      = Inr (3002399751580331 / 9007199254740992)"
    unfolding compute_f1_score_def
    by (rule f1_by_steps[OF tp fp fn _ _ recall _ precision _ prod total _ quot dbl]) simp_all
  have third: "f1_closed_form 1 0 4 = 1 / 3"
    by (simp add: f1_closed_form_def)
  have near: "round64 (1 / 3) = 6004799503160661 / 18014398509481984"
    by code_simp
  show ?thesis
    unfolding run third near by simp
qed

text \<open>
  Claim C9, amended. For all sets \<open>individuals\<close>, \<open>pos\<close> and \<open>neg\<close>, with
  \<open>tp = |pos \<inter> individuals|\<close>, \<open>fp = |neg \<inter> individuals|\<close> and
  \<open>fn = |pos - individuals|\<close>: computed in exact arithmetic, \<^verbatim>\<open>compute_f1_score\<close> is
  \<open>tp / (tp + (fp + fn) / 2)\<close>, and 0 when precision or recall is zero or undefined; computed
  in binary64, as the code does, it raises no error and returns a value that differs from
  that closed form by at most one part in \<^verbatim>\<open>2^50\<close> of it, and is exactly 0 where the
  closed form is 0.
\<close>

theorem f1_score_value:
  "compute_f1_score_with (\<lambda>x. x) individuals pos neg
     = Inr (f1_closed_form (int (card (pos \<inter> individuals)))
              (int (card (neg \<inter> individuals))) (int (card (pos - individuals))))
   \<and> (\<exists>v. compute_f1_score individuals pos neg = Inr v
        \<and> \<bar>v - f1_closed_form (int (card (pos \<inter> individuals)))
                  (int (card (neg \<inter> individuals))) (int (card (pos - individuals)))\<bar>
            \<le> f1_closed_form (int (card (pos \<inter> individuals)))
                  (int (card (neg \<inter> individuals))) (int (card (pos - individuals)))
                / 2 ^ 50)"
proof -
  let ?c = "f1_closed_form (int (card (pos \<inter> individuals)))
              (int (card (neg \<inter> individuals))) (int (card (pos - individuals)))"
  obtain v where v: "compute_f1_score_with (\<lambda>x. x) individuals pos neg = Inr v"
    and near: "\<bar>v - ?c\<bar> \<le> ?c / 2 ^ 50"
    using f1_with_rounding[of "\<lambda>x. x" individuals pos neg, OF identity_rounding_model] by blast
  have exact: "compute_f1_score_with (\<lambda>x. x) individuals pos neg = Inr ?c"
  proof (cases "card (pos \<inter> individuals) = 0")
    case True
    then show ?thesis
      by (simp add: compute_f1_score_with_def f1_closed_form_def Let_def)
  next
    case False
    define tp fp fn where "tp = int (card (pos \<inter> individuals))"
      and "fp = int (card (neg \<inter> individuals))" and "fn = int (card (pos - individuals))"
    have tp: "0 < tp" and nn: "0 \<le> fp" "0 \<le> fn"
      using False by (simp_all add: tp_def fp_def fn_def)
    define p r :: rat where "p = of_int tp / of_int (tp + fp)"
      and "r = of_int tp / of_int (tp + fn)"
    have p: "0 < p" and r: "0 < r" using tp nn by (simp_all add: p_def r_def)
    have nz: "tp + fn \<noteq> 0" "tp + fp \<noteq> 0" "p \<noteq> 0" "r \<noteq> 0" "p + r \<noteq> 0"
      using tp nn p r by simp_all
    have "compute_f1_score_with (\<lambda>x. x) individuals pos neg = Inr (2 * (p * r / (p + r)))"
      using nz
      by (simp add: compute_f1_score_with_def Let_def p_def r_def flip: tp_def fp_def fn_def)
    also have "2 * (p * r / (p + r)) = f1_closed_form tp fp fn"
      using f1_counts_closed[OF tp nn] by (simp add: p_def r_def)
    finally show ?thesis by (simp add: tp_def fp_def fn_def)
  qed
  have float: "\<exists>v. compute_f1_score individuals pos neg = Inr v \<and> \<bar>v - ?c\<bar> \<le> ?c / 2 ^ 50"
    unfolding compute_f1_score_def
    using f1_with_rounding[of round64 individuals pos neg, OF round64_model] .
  from exact float show ?thesis by blast
qed

end
